theory Spec2Isabelle
  imports Complex_Main "HOL-Library.Multiset" "HOL-Library.Sublist"
begin

section \<open>Bank reconciliation: the transaction matcher of financial-pdf\<close>

text \<open>
  The development embeds the reconciliation core of \<^verbatim>\<open>src/core/formatter.ts\<close>
  (\<^verbatim>\<open>processReconciliation\<close>, \<^verbatim>\<open>matchTransactions\<close>, \<^verbatim>\<open>findExactMatches\<close>,
  \<^verbatim>\<open>findFuzzyMatches\<close>, \<^verbatim>\<open>calculateMatchConfidence\<close>, \<^verbatim>\<open>calculateStringSimilarity\<close>,
  \<^verbatim>\<open>calculateReconciliationSummary\<close>), the second summary function
  \<^verbatim>\<open>generateReconciliationSummary\<close> and the types of \<^verbatim>\<open>types/reconciliation.ts\<close>.

  Conventions of the embedding.
  \<^item> A JavaScript \<^verbatim>\<open>number\<close> that the caller supplies (an amount, a threshold, a
    tolerance) is a finite value, idealised as a \<^typ>\<open>real\<close>: rounding of IEEE doubles is
    not modelled, and \<^verbatim>\<open>NaN\<close>/\<^verbatim>\<open>Infinity\<close> inputs are outside the model.
  \<^item> A \<^verbatim>\<open>Date\<close> is its \<^verbatim>\<open>getTime()\<close> value, an \<^typ>\<open>int\<close> of milliseconds.
  \<^item> A \<^verbatim>\<open>string\<close> is a \<^typ>\<open>string\<close>; white space and letter case are those of ASCII.
  \<^item> An optional field is an \<^typ>\<open>'a option\<close>, \<^term>\<open>None\<close> standing for \<^verbatim>\<open>undefined\<close>.
  \<^item> The one place where the code can produce \<^verbatim>\<open>NaN\<close> from finite inputs is the
    division \<^verbatim>\<open>daysDiff / settings.dateTolerance\<close> at \<^verbatim>\<open>0 / 0\<close>; a computed score is
    therefore a \<open>jsnumber\<close>, which is either \<open>NaN\<close> or a finite real.
  \<^item> The functions are embedded twice. The first embedding passes arrays by value: a pass
    takes the three arrays it updates and returns their new contents. The second keeps
    arrays and objects in a store and is used for what the code does to its caller's data;
    it is proved to return the results of the first.
  \<^item> The loops read \<^verbatim>\<open>bankTransactions[i]\<close> and \<^verbatim>\<open>bookTransactions[j]\<close> only at
    indices inside the arrays (\<open>i\<close> stays below the length because each iteration
    removes at most the element at \<open>i\<close>; \<open>j\<close> comes from \<^verbatim>\<open>findIndex\<close> or from the
    scan of the array), so no read of the model is out of range.
\<close>

subsection \<open>Types (types/reconciliation.ts)\<close>

datatype TransactionType = debit | credit

datatype MatchMethod = exact | fuzzy | manual

datatype Status = balanced | unbalanced

datatype jsnumber = NaN | Fin real

record Transaction =
  tx_id :: string
  date :: int
  description :: string
  amount :: real
  tx_type :: TransactionType
  category :: "string option"
  reference :: "string option"
  tx_matched :: "bool option"
  matchId :: "string option"
  metadata :: "(string \<times> string) list option"

record AccountInfo =
  name :: string
  number :: string
  bank :: "string option"
  currency :: string
  openingBalance :: real
  closingBalance :: real

text \<open>\<^verbatim>\<open>ReconciliationSettings\<close>: every option may be absent.\<close>

record ReconciliationSettings =
  fuzzyMatching_opt :: "bool option"
  fuzzyThreshold_opt :: "real option"
  matchByAmount_opt :: "bool option"
  matchByDescription_opt :: "bool option"
  matchByReference_opt :: "bool option"
  matchByDate_opt :: "bool option"
  dateTolerance_opt :: "real option"
  autoMatchExact_opt :: "bool option"

text \<open>The \<^verbatim>\<open>settings\<close> object that \<^verbatim>\<open>processReconciliation\<close> builds: every option present.\<close>

record Settings =
  fuzzyMatching :: bool
  fuzzyThreshold :: real
  matchByAmount :: bool
  matchByDescription :: bool
  matchByReference :: bool
  matchByDate :: bool
  dateTolerance :: real
  autoMatchExact :: bool

record MatchedTransaction =
  bankTransaction :: Transaction
  bookTransaction :: Transaction
  confidence :: jsnumber
  matchMethod :: MatchMethod

record ReconciliationSummary =
  matchedAmount :: real
  unmatchedBankAmount :: real
  unmatchedBookAmount :: real
  discrepancy :: real
  status :: Status
  matchPercentage :: real

text \<open>
  The object \<^verbatim>\<open>{ matched, unmatchedBank, unmatchedBook }\<close> returned by
  \<^verbatim>\<open>matchTransactions\<close>, and \<^verbatim>\<open>MatchResults\<close>, which adds the summary.
\<close>

record MatchLists =
  matched :: "MatchedTransaction list"
  unmatchedBank :: "Transaction list"
  unmatchedBook :: "Transaction list"

record MatchResults = MatchLists +
  summary :: ReconciliationSummary

record Period =
  startDate :: int
  endDate :: int

record ReconciliationData =
  account :: AccountInfo
  period :: Period
  bankTransactions :: "Transaction list"
  bookTransactions :: "Transaction list"
  settings :: "ReconciliationSettings option"
  matchResults :: "MatchResults option"

subsection \<open>Strings\<close>

text \<open>
  \<^verbatim>\<open>s.includes(t)\<close>: \<open>t\<close> occurs contiguously in \<open>s\<close>, that is, \<open>t\<close> starts \<open>s\<close> or
  occurs in the rest of \<open>s\<close>. The empty string occurs in every string.
\<close>

fun startsWith :: "string \<Rightarrow> string \<Rightarrow> bool" where
  "startsWith s [] = True"
| "startsWith [] (c # t) = False"
| "startsWith (a # s) (c # t) = (a = c \<and> startsWith s t)"

fun str_includes :: "string \<Rightarrow> string \<Rightarrow> bool" where
  "str_includes [] t = (t = [])"
| "str_includes (a # s) t = (startsWith (a # s) t \<or> str_includes s t)"

text \<open>The class \<^verbatim>\<open>\s\<close> on ASCII: tab, line feed, vertical tab, form feed, carriage return, space.\<close>

definition isSpace :: "char \<Rightarrow> bool" where
  "isSpace c = (let n = (of_char c :: nat) in (9 \<le> n \<and> n \<le> 13) \<or> n = 32)"

text \<open>
  \<^verbatim>\<open>str.split(/\s+/)\<close>: the pieces between maximal runs of white space. The token being
  read is \<open>cur\<close>; \<open>inRun\<close> says that the previous character was white space. A string that
  starts or ends with white space yields an empty first or last piece, and the empty string
  yields the one piece \<^verbatim>\<open>""\<close>.
\<close>

fun splitAux :: "string \<Rightarrow> bool \<Rightarrow> string \<Rightarrow> string list" where
  "splitAux cur inRun [] = [cur]"
| "splitAux cur inRun (c # cs) =
     (if isSpace c then (if inRun then splitAux cur True cs else cur # splitAux [] True cs)
      else splitAux (cur @ [c]) False cs)"

definition splitWs :: "string \<Rightarrow> string list" where
  "splitWs str = splitAux [] False str"

text \<open>\<^verbatim>\<open>toLowerCase()\<close> on ASCII letters.\<close>

definition toLowerChar :: "char \<Rightarrow> char" where
  "toLowerChar c = (let n = (of_char c :: nat) in if 65 \<le> n \<and> n \<le> 90 then char_of (n + 32) else c)"

definition toLowerCase :: "string \<Rightarrow> string" where
  "toLowerCase s = map toLowerChar s"

subsection \<open>calculateStringSimilarity\<close>

text \<open>
  The loop \<^verbatim>\<open>for (const word1 of words1) { if (...) matchCount++ }\<close>, with
  \<^verbatim>\<open>words2.some(word2 => word2.includes(word1) || word1.includes(word2))\<close>.
\<close>

definition wordMatches :: "string list \<Rightarrow> string \<Rightarrow> bool" where
  "wordMatches words2 word1 =
     (length word1 > 3 \<and> list_ex (\<lambda>word2. str_includes word2 word1 \<or> str_includes word1 word2) words2)"

fun countMatches :: "string list \<Rightarrow> string list \<Rightarrow> nat \<Rightarrow> nat" where
  "countMatches [] words2 matchCount = matchCount"
| "countMatches (word1 # rest) words2 matchCount =
     countMatches rest words2 (if wordMatches words2 word1 then matchCount + 1 else matchCount)"

text \<open>The third rule alone: the token count of the last four statements.\<close>

definition tokenScore :: "string \<Rightarrow> string \<Rightarrow> real" where
  "tokenScore str1 str2 =
     (let words1 = splitWs str1;
          words2 = splitWs str2;
          matchCount = countMatches words1 words2 0
      in min 1 (real matchCount / real (max (length words1) 1)))"

definition calculateStringSimilarity :: "string \<Rightarrow> string \<Rightarrow> real" where
  "calculateStringSimilarity str1 str2 =
     (if str1 = str2 then 1
      else if str_includes str1 str2 \<or> str_includes str2 str1 then 0.8
      else tokenScore str1 str2)"

subsection \<open>Computed scores\<close>

text \<open>
  Sums and products of computed scores; \<open>NaN\<close> is absorbing. Comparisons with \<open>NaN\<close>
  are false, as in JavaScript.
\<close>

fun nplus :: "jsnumber \<Rightarrow> jsnumber \<Rightarrow> jsnumber" where
  "nplus (Fin a) (Fin b) = Fin (a + b)"
| "nplus _ _ = NaN"

fun ntimes :: "jsnumber \<Rightarrow> jsnumber \<Rightarrow> jsnumber" where
  "ntimes (Fin a) (Fin b) = Fin (a * b)"
| "ntimes _ _ = NaN"

fun nge :: "jsnumber \<Rightarrow> jsnumber \<Rightarrow> bool" where
  "nge (Fin a) (Fin b) = (a \<ge> b)"
| "nge _ _ = False"

fun ngt :: "jsnumber \<Rightarrow> jsnumber \<Rightarrow> bool" where
  "ngt (Fin a) (Fin b) = (a > b)"
| "ngt _ _ = False"

subsection \<open>calculateMatchConfidence\<close>

text \<open>
  The four blocks of the function update the pair \<open>(totalScore, totalWeight)\<close> in turn.
  In the date block the quotient \<^verbatim>\<open>daysDiff / settings.dateTolerance\<close> is formed only
  under \<^verbatim>\<open>daysDiff <= settings.dateTolerance\<close> with \<open>daysDiff \<ge> 0\<close>, so a zero tolerance
  means the quotient \<^verbatim>\<open>0 / 0\<close>, which is \<open>NaN\<close>; every other divisor of the function is
  positive. A string is truthy when it is present and not empty.
\<close>

definition truthy :: "string option \<Rightarrow> bool" where
  "truthy r = (case r of None \<Rightarrow> False | Some str \<Rightarrow> str \<noteq> [])"

definition amountBlock :: "Transaction \<Rightarrow> Transaction \<Rightarrow> Settings \<Rightarrow> jsnumber \<times> real \<Rightarrow> jsnumber \<times> real" where
  "amountBlock bankTx bookTx s acc =
     (case acc of (totalScore, totalWeight) \<Rightarrow>
        if matchByAmount s then
          (let weight = 0.4;
               totalWeight = totalWeight + weight
           in if amount bankTx = amount bookTx
              then (nplus totalScore (Fin weight), totalWeight)
              else (totalScore, totalWeight))
        else (totalScore, totalWeight))"

definition dateBlock :: "Transaction \<Rightarrow> Transaction \<Rightarrow> Settings \<Rightarrow> jsnumber \<times> real \<Rightarrow> jsnumber \<times> real" where
  "dateBlock bankTx bookTx s acc =
     (case acc of (totalScore, totalWeight) \<Rightarrow>
        if matchByDate s then
          (let weight = 0.3;
               totalWeight = totalWeight + weight;
               dateDiff = \<bar>real_of_int (date bankTx - date bookTx)\<bar>;
               daysDiff = dateDiff / (1000 * 60 * 60 * 24)
           in if daysDiff \<le> dateTolerance s
              then (let dateScore = (if dateTolerance s = 0 then NaN
                                     else Fin (1 - daysDiff / dateTolerance s))
                    in (nplus totalScore (ntimes (Fin weight) dateScore), totalWeight))
              else (totalScore, totalWeight))
        else (totalScore, totalWeight))"

definition descriptionBlock :: "Transaction \<Rightarrow> Transaction \<Rightarrow> Settings \<Rightarrow> jsnumber \<times> real \<Rightarrow> jsnumber \<times> real" where
  "descriptionBlock bankTx bookTx s acc =
     (case acc of (totalScore, totalWeight) \<Rightarrow>
        if matchByDescription s \<and> description bankTx \<noteq> [] \<and> description bookTx \<noteq> [] then
          (let weight = 0.2;
               totalWeight = totalWeight + weight;
               descriptionSimilarity =
                 calculateStringSimilarity (toLowerCase (description bankTx))
                                           (toLowerCase (description bookTx))
           in (nplus totalScore (Fin (weight * descriptionSimilarity)), totalWeight))
        else (totalScore, totalWeight))"

definition referenceBlock :: "Transaction \<Rightarrow> Transaction \<Rightarrow> Settings \<Rightarrow> jsnumber \<times> real \<Rightarrow> jsnumber \<times> real" where
  "referenceBlock bankTx bookTx s acc =
     (case acc of (totalScore, totalWeight) \<Rightarrow>
        if matchByReference s \<and> truthy (reference bankTx) \<and> truthy (reference bookTx) then
          (let weight = 0.1;
               totalWeight = totalWeight + weight;
               referenceSimilarity =
                 calculateStringSimilarity (toLowerCase (the (reference bankTx)))
                                           (toLowerCase (the (reference bookTx)))
           in (nplus totalScore (Fin (weight * referenceSimilarity)), totalWeight))
        else (totalScore, totalWeight))"

definition calculateMatchConfidence :: "Transaction \<Rightarrow> Transaction \<Rightarrow> Settings \<Rightarrow> jsnumber" where
  "calculateMatchConfidence bankTx bookTx s =
     (case referenceBlock bankTx bookTx s
             (descriptionBlock bankTx bookTx s
               (dateBlock bankTx bookTx s
                 (amountBlock bankTx bookTx s (Fin 0, 0)))) of
        (totalScore, totalWeight) \<Rightarrow>
          if totalWeight > 0
          then (case totalScore of NaN \<Rightarrow> NaN | Fin t \<Rightarrow> Fin (t / totalWeight))
          else Fin 0)"

subsection \<open>The matcher: findExactMatches, findFuzzyMatches, matchTransactions\<close>

text \<open>
  The two passes work on three arrays, which they update in place: the remaining bank
  transactions, the remaining book transactions and the matches found so far. The state of
  a pass is this triple. \<^verbatim>\<open>arr.splice(i, 1)\<close> removes the element at index \<open>i\<close>;
  \<^verbatim>\<open>arr.findIndex(p)\<close> is the first index whose element satisfies \<open>p\<close>, \<open>None\<close> standing
  for \<^verbatim>\<open>-1\<close>.
\<close>

type_synonym MatchState = "Transaction list \<times> Transaction list \<times> MatchedTransaction list"

definition splice1 :: "nat \<Rightarrow> 'a list \<Rightarrow> 'a list" where
  "splice1 i xs = take i xs @ drop (Suc i) xs"

fun findIndex :: "('a \<Rightarrow> bool) \<Rightarrow> 'a list \<Rightarrow> nat option" where
  "findIndex p [] = None"
| "findIndex p (x # xs) = (if p x then Some 0 else map_option Suc (findIndex p xs))"

definition exactPredicate :: "Transaction \<Rightarrow> Transaction \<Rightarrow> bool" where
  "exactPredicate bankTx bookTx =
     (amount bookTx = amount bankTx \<and> date bookTx = date bankTx \<and> reference bookTx = reference bankTx)"

text \<open>The body of the loop of \<^verbatim>\<open>findExactMatches\<close> at index \<open>i\<close>.\<close>

definition exactBody :: "nat \<Rightarrow> MatchState \<Rightarrow> MatchState" where
  "exactBody i st =
     (case st of (bankArr, bookArr, matchedList) \<Rightarrow>
        (let bankTx = bankArr ! i
         in (case findIndex (exactPredicate bankTx) bookArr of
               None \<Rightarrow> st
             | Some bookIndex \<Rightarrow>
                 (let bookTx = bookArr ! bookIndex
                  in (splice1 i bankArr,
                      splice1 bookIndex bookArr,
                      matchedList @ [\<lparr>bankTransaction = bankTx, bookTransaction = bookTx,
                                       confidence = Fin 1, matchMethod = exact\<rparr>])))))"

text \<open>
  \<^verbatim>\<open>for (let i = bankTransactions.length - 1; i >= 0; i--)\<close>: \<open>exactLoop n\<close> runs the
  iterations \<open>i = n - 1, \<dots>, 0\<close>.
\<close>

fun exactLoop :: "nat \<Rightarrow> MatchState \<Rightarrow> MatchState" where
  "exactLoop 0 st = st"
| "exactLoop (Suc i) st = exactLoop i (exactBody i st)"

definition findExactMatches :: "MatchState \<Rightarrow> MatchState" where
  "findExactMatches st = exactLoop (length (fst st)) st"

text \<open>
  The inner loop of \<^verbatim>\<open>findFuzzyMatches\<close>, from index \<open>j\<close> on; \<open>bestMatch\<close> is
  \<^verbatim>\<open>{ index, confidence }\<close> or \<^verbatim>\<open>null\<close>.
\<close>

function scanBook ::
  "Transaction \<Rightarrow> Transaction list \<Rightarrow> Settings \<Rightarrow> nat \<Rightarrow> (nat \<times> jsnumber) option
     \<Rightarrow> (nat \<times> jsnumber) option" where
  "scanBook bankTx bookArr s j bestMatch =
     (if j < length bookArr then
        (let bookTx = bookArr ! j;
             conf = calculateMatchConfidence bankTx bookTx s
         in scanBook bankTx bookArr s (j + 1)
              (if nge conf (Fin (fuzzyThreshold s)) \<and>
                  (case bestMatch of None \<Rightarrow> True | Some b \<Rightarrow> ngt conf (snd b))
               then Some (j, conf) else bestMatch))
      else bestMatch)"
  by pat_completeness auto
termination
  by (relation "measure (\<lambda>(bankTx, bookArr, s, j, bestMatch). length bookArr - j)") auto

declare scanBook.simps [simp del]

definition fuzzyBody :: "Settings \<Rightarrow> nat \<Rightarrow> MatchState \<Rightarrow> MatchState" where
  "fuzzyBody s i st =
     (case st of (bankArr, bookArr, matchedList) \<Rightarrow>
        (let bankTx = bankArr ! i
         in (case scanBook bankTx bookArr s 0 None of
               None \<Rightarrow> st
             | Some bestMatch \<Rightarrow>
                 (let bookTx = bookArr ! (fst bestMatch)
                  in (splice1 i bankArr,
                      splice1 (fst bestMatch) bookArr,
                      matchedList @ [\<lparr>bankTransaction = bankTx, bookTransaction = bookTx,
                                       confidence = snd bestMatch, matchMethod = fuzzy\<rparr>])))))"

fun fuzzyLoop :: "Settings \<Rightarrow> nat \<Rightarrow> MatchState \<Rightarrow> MatchState" where
  "fuzzyLoop s 0 st = st"
| "fuzzyLoop s (Suc i) st = fuzzyLoop s i (fuzzyBody s i st)"

definition findFuzzyMatches :: "MatchState \<Rightarrow> Settings \<Rightarrow> MatchState" where
  "findFuzzyMatches st s = fuzzyLoop s (length (fst st)) st"

text \<open>
  \<^verbatim>\<open>matchTransactions\<close> starts from copies of the two input arrays and an empty array of
  matches.
\<close>

definition matchTransactions :: "Transaction list \<Rightarrow> Transaction list \<Rightarrow> Settings \<Rightarrow> MatchLists" where
  "matchTransactions bankTxs bookTxs s =
     (let st0 = (bankTxs, bookTxs, []);
          st1 = (if autoMatchExact s then findExactMatches st0 else st0);
          st2 = (if fuzzyMatching s then findFuzzyMatches st1 s else st1)
      in (case st2 of (remainingBank, remainingBook, matchedList) \<Rightarrow>
            \<lparr>matched = matchedList,
             unmatchedBank = remainingBank,
             unmatchedBook = remainingBook\<rparr>))"

subsection \<open>The summaries\<close>

text \<open>\<^verbatim>\<open>xs.reduce((sum, x) => sum + f(x), 0)\<close> is a left fold from 0.\<close>

definition calculateReconciliationSummary ::
  "'acct \<Rightarrow> MatchedTransaction list \<Rightarrow> Transaction list \<Rightarrow> Transaction list \<Rightarrow> ReconciliationSummary" where
  "calculateReconciliationSummary acct matchedList unmatchedBankList unmatchedBookList =
     (let matchedAmt = foldl (\<lambda>sum match. sum + amount (bankTransaction match)) 0 matchedList;
          unmatchedBankAmt = foldl (\<lambda>sum tx. sum + amount tx) 0 unmatchedBankList;
          unmatchedBookAmt = foldl (\<lambda>sum tx. sum + amount tx) 0 unmatchedBookList;
          discr = unmatchedBankAmt - unmatchedBookAmt;
          totalTransactions = length matchedList + length unmatchedBankList + length unmatchedBookList;
          matchPct = (if totalTransactions > 0
                      then (real (length matchedList) / real totalTransactions) * 100
                      else 100)
      in \<lparr>matchedAmount = matchedAmt,
          unmatchedBankAmount = unmatchedBankAmt,
          unmatchedBookAmount = unmatchedBookAmt,
          discrepancy = discr,
          status = (if \<bar>discr\<bar> < 0.01 then balanced else unbalanced),
          matchPercentage = matchPct\<rparr>)"

text \<open>The exported summary function of the summary module, with a typed account.\<close>

definition generateReconciliationSummary ::
  "AccountInfo \<Rightarrow> MatchedTransaction list \<Rightarrow> Transaction list \<Rightarrow> Transaction list \<Rightarrow> ReconciliationSummary" where
  "generateReconciliationSummary acct matchedList unmatchedBankList unmatchedBookList =
     (let matchedAmt = foldl (\<lambda>sum match. sum + amount (bankTransaction match)) 0 matchedList;
          unmatchedBankAmt = foldl (\<lambda>sum tx. sum + amount tx) 0 unmatchedBankList;
          unmatchedBookAmt = foldl (\<lambda>sum tx. sum + amount tx) 0 unmatchedBookList;
          discr = unmatchedBankAmt - unmatchedBookAmt;
          totalTransactions = length matchedList + length unmatchedBankList + length unmatchedBookList;
          matchPct = (if totalTransactions > 0
                      then (real (length matchedList) / real totalTransactions) * 100
                      else 100)
      in \<lparr>matchedAmount = matchedAmt,
          unmatchedBankAmount = unmatchedBankAmt,
          unmatchedBookAmount = unmatchedBookAmt,
          discrepancy = discr,
          status = (if \<bar>discr\<bar> < 0.01 then balanced else unbalanced),
          matchPercentage = matchPct\<rparr>)"

subsection \<open>processReconciliation\<close>

text \<open>
  \<^verbatim>\<open>{ fuzzyMatching: true, ..., autoMatchExact: true, ...data.settings }\<close>: an option that
  the caller gives replaces the default.
\<close>

definition defaultSettings :: Settings where
  "defaultSettings =
     \<lparr>fuzzyMatching = True, fuzzyThreshold = 0.7, matchByAmount = True,
      matchByDescription = True, matchByReference = True, matchByDate = True,
      dateTolerance = 3, autoMatchExact = True\<rparr>"

definition orDefault :: "'a option \<Rightarrow> 'a \<Rightarrow> 'a" where
  "orDefault given dflt = (case given of None \<Rightarrow> dflt | Some v \<Rightarrow> v)"

definition mergeSettings :: "ReconciliationSettings option \<Rightarrow> Settings" where
  "mergeSettings given =
     (case given of
        None \<Rightarrow> defaultSettings
      | Some g \<Rightarrow>
          \<lparr>fuzzyMatching = orDefault (fuzzyMatching_opt g) (fuzzyMatching defaultSettings),
           fuzzyThreshold = orDefault (fuzzyThreshold_opt g) (fuzzyThreshold defaultSettings),
           matchByAmount = orDefault (matchByAmount_opt g) (matchByAmount defaultSettings),
           matchByDescription = orDefault (matchByDescription_opt g) (matchByDescription defaultSettings),
           matchByReference = orDefault (matchByReference_opt g) (matchByReference defaultSettings),
           matchByDate = orDefault (matchByDate_opt g) (matchByDate defaultSettings),
           dateTolerance = orDefault (dateTolerance_opt g) (dateTolerance defaultSettings),
           autoMatchExact = orDefault (autoMatchExact_opt g) (autoMatchExact defaultSettings)\<rparr>)"

definition processReconciliation :: "ReconciliationData \<Rightarrow> MatchResults" where
  "processReconciliation data =
     (let s = mergeSettings (settings data);
          results = matchTransactions (bankTransactions data) (bookTransactions data) s;
          summ = calculateReconciliationSummary (account data)
                   (matched results) (unmatchedBank results) (unmatchedBook results)
      in \<lparr>matched = matched results,
          unmatchedBank = unmatchedBank results,
          unmatchedBook = unmatchedBook results,
          summary = summ\<rparr>)"

subsection \<open>The same functions over a store\<close>

text \<open>
  The functions above pass arrays by value. To state what the code does to the caller's
  arrays and objects, the matcher is embedded a second time over an explicit store: an
  array is an address, its content is found in the store, and a transaction in an array is
  a reference to a transaction object. \<^verbatim>\<open>[...xs]\<close> allocates a new array with the content
  of \<open>xs\<close>, \<^verbatim>\<open>splice\<close> and \<^verbatim>\<open>push\<close> update the array at the address they are given, and
  nothing in the code assigns to a field of a transaction or of the data object.
\<close>

record MatchedRef =
  bankTransactionRef :: nat
  bookTransactionRef :: nat
  confidenceVal :: jsnumber
  matchMethodVal :: MatchMethod

record MatchResultsRef =
  matchedArr :: nat
  unmatchedBankArr :: nat
  unmatchedBookArr :: nat
  summaryVal :: ReconciliationSummary

record DataObject =
  accountVal :: AccountInfo
  periodVal :: Period
  bankTransactionsArr :: nat
  bookTransactionsArr :: nat
  settingsVal :: "ReconciliationSettings option"
  matchResultsVal :: "MatchResultsRef option"

record Store =
  txObjects :: "nat \<Rightarrow> Transaction"
  txArrays :: "nat \<Rightarrow> nat list"
  matchArrays :: "nat \<Rightarrow> MatchedRef list"
  dataObjects :: "nat \<Rightarrow> DataObject"
  fresh :: nat

text \<open>Allocation of a new array, \<^verbatim>\<open>arr.splice(i, 1)\<close> and \<^verbatim>\<open>arr.push(m)\<close> in the store.\<close>

definition newTxArray :: "nat list \<Rightarrow> Store \<Rightarrow> nat \<times> Store" where
  "newTxArray xs st = (fresh st, st\<lparr>txArrays := (txArrays st)(fresh st := xs), fresh := Suc (fresh st)\<rparr>)"

definition newMatchArray :: "Store \<Rightarrow> nat \<times> Store" where
  "newMatchArray st = (fresh st, st\<lparr>matchArrays := (matchArrays st)(fresh st := []), fresh := Suc (fresh st)\<rparr>)"

definition spliceTx :: "nat \<Rightarrow> nat \<Rightarrow> Store \<Rightarrow> Store" where
  "spliceTx a i st = st\<lparr>txArrays := (txArrays st)(a := splice1 i (txArrays st a))\<rparr>"

definition pushMatch :: "nat \<Rightarrow> MatchedRef \<Rightarrow> Store \<Rightarrow> Store" where
  "pushMatch a m st = st\<lparr>matchArrays := (matchArrays st)(a := matchArrays st a @ [m])\<rparr>"

text \<open>
  \<^verbatim>\<open>findExactMatches\<close> and \<^verbatim>\<open>findFuzzyMatches\<close> receive the addresses of three arrays.
  The order of the updates is that of the code: \<^verbatim>\<open>push\<close>, then the two \<^verbatim>\<open>splice\<close> calls.
\<close>

definition exactBody_store :: "nat \<Rightarrow> nat \<Rightarrow> nat \<Rightarrow> nat \<Rightarrow> Store \<Rightarrow> Store" where
  "exactBody_store bankA bookA matchedA i st =
     (let bankTx = txArrays st bankA ! i
      in (case findIndex (\<lambda>bookTx. exactPredicate (txObjects st bankTx) (txObjects st bookTx))
                 (txArrays st bookA) of
            None \<Rightarrow> st
          | Some bookIndex \<Rightarrow>
              (let bookTx = txArrays st bookA ! bookIndex
               in spliceTx bookA bookIndex
                    (spliceTx bankA i
                       (pushMatch matchedA
                          \<lparr>bankTransactionRef = bankTx, bookTransactionRef = bookTx,
                           confidenceVal = Fin 1, matchMethodVal = exact\<rparr> st)))))"

fun exactLoop_store :: "nat \<Rightarrow> nat \<Rightarrow> nat \<Rightarrow> nat \<Rightarrow> Store \<Rightarrow> Store" where
  "exactLoop_store bankA bookA matchedA 0 st = st"
| "exactLoop_store bankA bookA matchedA (Suc i) st =
     exactLoop_store bankA bookA matchedA i (exactBody_store bankA bookA matchedA i st)"

definition findExactMatches_store :: "nat \<Rightarrow> nat \<Rightarrow> nat \<Rightarrow> Store \<Rightarrow> Store" where
  "findExactMatches_store bankA bookA matchedA st =
     exactLoop_store bankA bookA matchedA (length (txArrays st bankA)) st"

text \<open>The inner loop only reads: it is \<open>scanBook\<close> on the objects that the book array refers to.\<close>

definition fuzzyBody_store :: "Settings \<Rightarrow> nat \<Rightarrow> nat \<Rightarrow> nat \<Rightarrow> nat \<Rightarrow> Store \<Rightarrow> Store" where
  "fuzzyBody_store s bankA bookA matchedA i st =
     (let bankTx = txArrays st bankA ! i
      in (case scanBook (txObjects st bankTx) (map (txObjects st) (txArrays st bookA)) s 0 None of
            None \<Rightarrow> st
          | Some bestMatch \<Rightarrow>
              (let bookTx = txArrays st bookA ! (fst bestMatch)
               in spliceTx bookA (fst bestMatch)
                    (spliceTx bankA i
                       (pushMatch matchedA
                          \<lparr>bankTransactionRef = bankTx, bookTransactionRef = bookTx,
                           confidenceVal = snd bestMatch, matchMethodVal = fuzzy\<rparr> st)))))"

fun fuzzyLoop_store :: "Settings \<Rightarrow> nat \<Rightarrow> nat \<Rightarrow> nat \<Rightarrow> nat \<Rightarrow> Store \<Rightarrow> Store" where
  "fuzzyLoop_store s bankA bookA matchedA 0 st = st"
| "fuzzyLoop_store s bankA bookA matchedA (Suc i) st =
     fuzzyLoop_store s bankA bookA matchedA i (fuzzyBody_store s bankA bookA matchedA i st)"

definition findFuzzyMatches_store :: "nat \<Rightarrow> nat \<Rightarrow> nat \<Rightarrow> Settings \<Rightarrow> Store \<Rightarrow> Store" where
  "findFuzzyMatches_store bankA bookA matchedA s st =
     fuzzyLoop_store s bankA bookA matchedA (length (txArrays st bankA)) st"

text \<open>
  \<^verbatim>\<open>matchTransactions\<close> receives the addresses of the caller's two arrays, allocates the two
  copies and the array of matches, and returns the three new addresses.
\<close>

definition matchTransactions_store :: "nat \<Rightarrow> nat \<Rightarrow> Settings \<Rightarrow> Store \<Rightarrow> (nat \<times> nat \<times> nat) \<times> Store" where
  "matchTransactions_store bankTxsA bookTxsA s st =
     (case newTxArray (txArrays st bankTxsA) st of (remainingBank, st1) \<Rightarrow>
      case newTxArray (txArrays st1 bookTxsA) st1 of (remainingBook, st2) \<Rightarrow>
      case newMatchArray st2 of (matchedA, st3) \<Rightarrow>
        (let st4 = (if autoMatchExact s
                    then findExactMatches_store remainingBank remainingBook matchedA st3 else st3);
             st5 = (if fuzzyMatching s
                    then findFuzzyMatches_store remainingBank remainingBook matchedA s st4 else st4)
         in ((matchedA, remainingBank, remainingBook), st5)))"

text \<open>A match with its two references followed, as the summary reads it.\<close>

definition derefMatch :: "Store \<Rightarrow> MatchedRef \<Rightarrow> MatchedTransaction" where
  "derefMatch st m =
     \<lparr>bankTransaction = txObjects st (bankTransactionRef m),
      bookTransaction = txObjects st (bookTransactionRef m),
      confidence = confidenceVal m, matchMethod = matchMethodVal m\<rparr>"

definition processReconciliation_store :: "nat \<Rightarrow> Store \<Rightarrow> MatchResultsRef \<times> Store" where
  "processReconciliation_store dataRef st =
     (let data = dataObjects st dataRef;
          s = mergeSettings (settingsVal data)
      in (case matchTransactions_store (bankTransactionsArr data) (bookTransactionsArr data) s st of
            ((matchedA, unmatchedBankA, unmatchedBookA), st') \<Rightarrow>
              (let summ = calculateReconciliationSummary (accountVal (dataObjects st' dataRef))
                            (map (derefMatch st') (matchArrays st' matchedA))
                            (map (txObjects st') (txArrays st' unmatchedBankA))
                            (map (txObjects st') (txArrays st' unmatchedBookA))
               in (\<lparr>matchedArr = matchedA, unmatchedBankArr = unmatchedBankA,
                    unmatchedBookArr = unmatchedBookA, summaryVal = summ\<rparr>, st'))))"


subsection \<open>The selection of the fuzzy pass in the words of the specification\<close>

text \<open>
  A candidate qualifies when its confidence is a number at least the threshold. The best
  candidate for a bank transaction is a qualifying candidate that no qualifying candidate
  exceeds and that strictly exceeds every qualifying candidate at a lower index: the lowest
  index among those attaining the highest confidence.
\<close>

definition qualifies :: "Transaction \<Rightarrow> Transaction list \<Rightarrow> Settings \<Rightarrow> nat \<Rightarrow> bool" where
  "qualifies bankTx bookArr s j =
     nge (calculateMatchConfidence bankTx (bookArr ! j) s) (Fin (fuzzyThreshold s))"

definition isBestCandidate :: "Transaction \<Rightarrow> Transaction list \<Rightarrow> Settings \<Rightarrow> nat \<Rightarrow> bool" where
  "isBestCandidate bankTx bookArr s j =
     (j < length bookArr \<and> qualifies bankTx bookArr s j \<and>
      (\<forall>k < length bookArr. qualifies bankTx bookArr s k \<longrightarrow>
         nge (calculateMatchConfidence bankTx (bookArr ! j) s) (calculateMatchConfidence bankTx (bookArr ! k) s)) \<and>
      (\<forall>k < j. qualifies bankTx bookArr s k \<longrightarrow>
         ngt (calculateMatchConfidence bankTx (bookArr ! j) s) (calculateMatchConfidence bankTx (bookArr ! k) s)))"

text \<open>
  A turn of the pass at bank index \<open>i\<close>: the index is inside the remaining bank list, and
  either the bank transaction there is paired with its best candidate among the remaining
  book transactions, both are removed and the pair, with its confidence and the method
  \<open>fuzzy\<close>, is appended; or no remaining book transaction qualifies and nothing changes.
  \<open>pairedAt\<close> says that a pair is the one formed at index \<open>i\<close> in a given state.
\<close>

definition fuzzyTurn :: "Settings \<Rightarrow> nat \<Rightarrow> MatchState \<Rightarrow> MatchState \<Rightarrow> bool" where
  "fuzzyTurn s i st st' =
     (case st of (bankArr, bookArr, matchedList) \<Rightarrow>
        i < length bankArr \<and>
        ((\<exists>j. isBestCandidate (bankArr ! i) bookArr s j \<and>
              st' = (splice1 i bankArr, splice1 j bookArr,
                     matchedList @ [\<lparr>bankTransaction = bankArr ! i, bookTransaction = bookArr ! j,
                                      confidence = calculateMatchConfidence (bankArr ! i) (bookArr ! j) s,
                                      matchMethod = fuzzy\<rparr>])) \<or>
         ((\<forall>k<length bookArr. \<not> qualifies (bankArr ! i) bookArr s k) \<and> st' = st)))"

definition pairedAt :: "Settings \<Rightarrow> nat \<Rightarrow> MatchState \<Rightarrow> MatchedTransaction \<Rightarrow> bool" where
  "pairedAt s i st m =
     (case st of (bankArr, bookArr, matchedList) \<Rightarrow>
        i < length bankArr \<and>
        (\<exists>j. isBestCandidate (bankArr ! i) bookArr s j \<and>
              m = \<lparr>bankTransaction = bankArr ! i, bookTransaction = bookArr ! j,
                    confidence = calculateMatchConfidence (bankArr ! i) (bookArr ! j) s,
                    matchMethod = fuzzy\<rparr>))"

subsection \<open>Invariants used in the proofs\<close>

text \<open>
  One iteration of either pass leaves the state as it is or removes the bank transaction at
  index \<open>i\<close> and one book transaction and appends their pair.
\<close>

definition removalStep :: "nat \<Rightarrow> MatchState \<Rightarrow> MatchState \<Rightarrow> bool" where
  "removalStep i st st' =
     (case st of (bankArr, bookArr, matchedList) \<Rightarrow>
        st' = st \<or>
        (\<exists>j c meth. j < length bookArr \<and>
           st' = (splice1 i bankArr, splice1 j bookArr,
                  matchedList @ [\<lparr>bankTransaction = bankArr ! i, bookTransaction = bookArr ! j,
                                   confidence = c, matchMethod = meth\<rparr>])))"

text \<open>
  The state partitions the input: matched and remaining transactions together are the
  input, and the remaining ones are in input order.
\<close>

definition partitionInv :: "Transaction list \<Rightarrow> Transaction list \<Rightarrow> MatchState \<Rightarrow> bool" where
  "partitionInv bankTxs bookTxs st =
     (case st of (bankArr, bookArr, matchedList) \<Rightarrow>
        mset (map bankTransaction matchedList) + mset bankArr = mset bankTxs \<and>
        mset (map bookTransaction matchedList) + mset bookArr = mset bookTxs \<and>
        subseq bankArr bankTxs \<and> subseq bookArr bookTxs)"

text \<open>
  After the scan of the indices below \<open>j\<close>, the incumbent is the best candidate among
  them.
\<close>

definition bestInv :: "Transaction \<Rightarrow> Transaction list \<Rightarrow> Settings \<Rightarrow> nat \<Rightarrow> (nat \<times> jsnumber) option \<Rightarrow> bool" where
  "bestInv bankTx bookArr s j best =
     (case best of
        None \<Rightarrow> \<forall>k<j. \<not> qualifies bankTx bookArr s k
      | Some b \<Rightarrow> fst b < j \<and> snd b = calculateMatchConfidence bankTx (bookArr ! fst b) s \<and>
          qualifies bankTx bookArr s (fst b) \<and>
          (\<forall>k<j. qualifies bankTx bookArr s k \<longrightarrow> nge (snd b) (calculateMatchConfidence bankTx (bookArr ! k) s)) \<and>
          (\<forall>k<fst b. qualifies bankTx bookArr s k \<longrightarrow> ngt (snd b) (calculateMatchConfidence bankTx (bookArr ! k) s)))"

text \<open>
  The accumulated score of \<^verbatim>\<open>calculateMatchConfidence\<close>, when it is a number, lies between 0
  and the accumulated weight.
\<close>

definition accOk :: "jsnumber \<times> real \<Rightarrow> bool" where
  "accOk acc = (case acc of (totalScore, totalWeight) \<Rightarrow>
      0 \<le> totalWeight \<and> (case totalScore of NaN \<Rightarrow> True | Fin t \<Rightarrow> 0 \<le> t \<and> t \<le> totalWeight))"

text \<open>
  Every fuzzy pair has a confidence between the threshold and 1; every pair of the exact
  pass has confidence 1 and agrees on the three fields; from index \<open>n\<close> on, no remaining
  bank transaction agrees with a remaining book transaction.
\<close>

definition fuzzyOk :: "real \<Rightarrow> MatchedTransaction list \<Rightarrow> bool" where
  "fuzzyOk thr ms = (\<forall>m\<in>set ms. matchMethod m = fuzzy \<longrightarrow>
      (\<exists>c. confidence m = Fin c \<and> thr \<le> c \<and> c \<le> 1))"

definition exactOk :: "MatchedTransaction list \<Rightarrow> bool" where
  "exactOk ms = (\<forall>m\<in>set ms. confidence m = Fin 1 \<and> matchMethod m = exact \<and>
                   exactPredicate (bankTransaction m) (bookTransaction m))"

definition noExactFrom :: "nat \<Rightarrow> MatchState \<Rightarrow> bool" where
  "noExactFrom n st = (case st of (bankArr, bookArr, matchedList) \<Rightarrow>
      \<forall>p. n \<le> p \<and> p < length bankArr \<longrightarrow> (\<forall>k\<in>set bookArr. \<not> exactPredicate (bankArr ! p) k))"

text \<open>
  From index \<open>n\<close> on, no remaining bank transaction reaches the threshold with a
  remaining book transaction.
\<close>

definition noFuzzyFrom :: "Settings \<Rightarrow> nat \<Rightarrow> MatchState \<Rightarrow> bool" where
  "noFuzzyFrom s n st = (case st of (bankArr, bookArr, matchedList) \<Rightarrow>
      \<forall>p. n \<le> p \<and> p < length bankArr \<longrightarrow>
          (\<forall>k\<in>set bookArr. \<not> nge (calculateMatchConfidence (bankArr ! p) k s) (Fin (fuzzyThreshold s))))"

text \<open>
  Over the store: a pass writes only the three arrays it is given; the arrays it is given
  hold references from the sets \<open>B\<close> and \<open>K\<close>; the store after the three allocations of
  \<^verbatim>\<open>matchTransactions\<close>; and the state of the value model that a store represents.
\<close>

definition frameInv :: "nat \<Rightarrow> nat \<Rightarrow> nat \<Rightarrow> Store \<Rightarrow> Store \<Rightarrow> bool" where
  "frameInv bankA bookA matchedA st st' =
     (txObjects st' = txObjects st \<and> dataObjects st' = dataObjects st \<and> fresh st' = fresh st \<and>
      (\<forall>a. a \<noteq> bankA \<and> a \<noteq> bookA \<longrightarrow> txArrays st' a = txArrays st a) \<and>
      (\<forall>a. a \<noteq> matchedA \<longrightarrow> matchArrays st' a = matchArrays st a))"

definition refsInv :: "nat \<Rightarrow> nat \<Rightarrow> nat \<Rightarrow> nat set \<Rightarrow> nat set \<Rightarrow> Store \<Rightarrow> bool" where
  "refsInv bankA bookA matchedA B K st =
     (set (txArrays st bankA) \<subseteq> B \<and> set (txArrays st bookA) \<subseteq> K \<and>
      (\<forall>m \<in> set (matchArrays st matchedA). bankTransactionRef m \<in> B \<and> bookTransactionRef m \<in> K))"

definition allocated3 :: "nat \<Rightarrow> nat \<Rightarrow> Store \<Rightarrow> Store" where
  "allocated3 bankIn bookIn st =
     snd (newMatchArray (snd (newTxArray (txArrays (snd (newTxArray (txArrays st bankIn) st)) bookIn)
                                 (snd (newTxArray (txArrays st bankIn) st)))))"

definition simulates :: "nat \<Rightarrow> nat \<Rightarrow> nat \<Rightarrow> Store \<Rightarrow> MatchState \<Rightarrow> bool" where
  "simulates bankA bookA matchedA st pst =
     (pst = (map (txObjects st) (txArrays st bankA),
             map (txObjects st) (txArrays st bookA),
             map (derefMatch st) (matchArrays st matchedA)))"

subsection \<open>Sample data\<close>

text \<open>
  A transaction with the fields that the matcher reads, and a store with one bank
  transaction (object 0 in array 0) and one book transaction (object 1 in array 1).
\<close>

definition sampleTx :: "string \<Rightarrow> int \<Rightarrow> string \<Rightarrow> real \<Rightarrow> string option \<Rightarrow> Transaction" where
  "sampleTx ident t descr amt ref =
     \<lparr>tx_id = ident, date = t, description = descr, amount = amt, tx_type = debit,
      category = None, reference = ref, tx_matched = None, matchId = None, metadata = None\<rparr>"

definition sampleStore :: Store where
  "sampleStore =
     \<lparr>txObjects = (\<lambda>r. if r = 0 then sampleTx ''b1'' 0 ''Rent'' 100 None
                        else sampleTx ''k1'' 86400000 ''Rent'' 100 None),
      txArrays = (\<lambda>a. if a = 0 then [0] else if a = 1 then [1] else []),
      matchArrays = (\<lambda>a. []),
      dataObjects = (\<lambda>d. \<lparr>accountVal = \<lparr>name = ''Main'', number = ''001'', bank = None, currency = ''USD'',
                                           openingBalance = 0, closingBalance = 100\<rparr>,
                            periodVal = \<lparr>startDate = 0, endDate = 86400000\<rparr>,
                            bankTransactionsArr = 0, bookTransactionsArr = 1,
                            settingsVal = None, matchResultsVal = None\<rparr>),
      fresh = 2\<rparr>"

section \<open>Basic facts\<close>

text \<open>
  \<open>str_includes\<close> is the contiguous-substring relation of the list library; the
  examples show the pieces that \<^verbatim>\<open>split(/\s+/)\<close> returns around leading and trailing
  white space.
\<close>

lemma startsWith_prefix: "startsWith s t \<longleftrightarrow> prefix t s"
  by (induction s t rule: startsWith.induct) auto

lemma str_includes_sublist: "str_includes s t \<longleftrightarrow> sublist t s"
  by (induction s) (auto simp: startsWith_prefix sublist_Cons_right)

lemma splitWs_examples:
  "splitWs '''' = ['''']"
  "splitWs ''office  supplies'' = [''office'', ''supplies'']"
  "splitWs '' a b '' = ['''', ''a'', ''b'', '''']"
  by (simp_all add: splitWs_def isSpace_def)

lemma toLowerCase_example: "toLowerCase ''Office Supplies 42'' = ''office supplies 42''"
  by code_simp

lemma str_includes_Nil: "str_includes s []"
  by (induction s) simp_all



lemma tokenScore_range: "0 \<le> tokenScore a b \<and> tokenScore a b \<le> 1"
  by (simp add: tokenScore_def Let_def)

lemma calculateStringSimilarity_range:
  "0 \<le> calculateStringSimilarity a b \<and> calculateStringSimilarity a b \<le> 1"
  using tokenScore_range[of a b] by (simp add: calculateStringSimilarity_def)

lemma sim_empty: "str1 = [] \<or> str2 = [] \<Longrightarrow>
   calculateStringSimilarity str1 str2 = (if str1 = str2 then 1 else 0.8)"
  by (auto simp: calculateStringSimilarity_def str_includes_Nil)

lemma foldl_add: "foldl (\<lambda>sum x. sum + f x) a xs = (a::real) + sum_list (map f xs)"
  by (induction xs arbitrary: a) simp_all

lemma summary_fields:
  "matchedAmount (calculateReconciliationSummary acct ms ub uk) = sum_list (map (\<lambda>m. amount (bankTransaction m)) ms)"
  by (simp add: calculateReconciliationSummary_def Let_def foldl_add)

lemma gen_eq: "generateReconciliationSummary acct ms ub uk = calculateReconciliationSummary acct' ms ub uk"
  by (simp add: calculateReconciliationSummary_def generateReconciliationSummary_def)

lemma findIndex_Some: "findIndex p xs = Some j \<Longrightarrow> j < length xs \<and> p (xs ! j) \<and> (\<forall>k<j. \<not> p (xs ! k))"
proof (induction xs arbitrary: j)
  case Nil then show ?case by simp
next
  case (Cons x xs)
  show ?case
  proof (cases "p x")
    case True with Cons.prems show ?thesis by simp
  next
    case False
    with Cons.prems obtain j' where j': "findIndex p xs = Some j'" "j = Suc j'" by auto
    from Cons.IH[OF j'(1)] False j'(2) show ?thesis by (auto simp: less_Suc_eq_0_disj)
  qed
qed

lemma findIndex_None: "findIndex p xs = None \<longleftrightarrow> (\<forall>x\<in>set xs. \<not> p x)"
  by (induction xs) auto

lemma length_splice1: "i < length xs \<Longrightarrow> length (splice1 i xs) = length xs - 1"
  by (simp add: splice1_def)

lemma mset_splice1: "i < length xs \<Longrightarrow> add_mset (xs ! i) (mset (splice1 i xs)) = mset xs"
proof -
  assume a: "i < length xs"
  have "xs = take i xs @ xs ! i # drop (Suc i) xs" using a by (simp add: id_take_nth_drop)
  then have "mset xs = mset (take i xs @ xs ! i # drop (Suc i) xs)" by simp
  then show ?thesis by (simp add: splice1_def)
qed

lemma subseq_splice1: "subseq (splice1 i xs) xs"
proof -
  have "subseq (drop (Suc i) xs) (drop i xs)"
  proof -
    have "drop (Suc i) xs = drop 1 (drop i xs)" by simp
    moreover have "suffix (drop 1 (drop i xs)) (drop i xs)" by (rule suffix_drop)
    ultimately show ?thesis by (simp only: suffix_imp_subseq)
  qed
  then have "subseq (take i xs @ drop (Suc i) xs) (take i xs @ drop i xs)"
    by (simp only: subseq_append')
  then show ?thesis by (simp add: splice1_def)
qed

lemma set_splice1: "set (splice1 i xs) \<subseteq> set xs"
  by (auto simp: splice1_def dest: in_set_takeD in_set_dropD)

lemma nth_splice1: "p < length (splice1 i xs) \<Longrightarrow> splice1 i xs ! p = (if p < i then xs ! p else xs ! Suc p)"
  by (auto simp: splice1_def nth_append min_def)

section \<open>The two passes remove matched pairs\<close>

lemma exactBody_removal: "removalStep i st (exactBody i st)"
  by (cases st) (auto simp: removalStep_def exactBody_def Let_def dest: findIndex_Some split: option.splits)

lemma scanBook_index_aux:
  "(case best of None \<Rightarrow> True | Some b \<Rightarrow> fst b < length bookArr) \<Longrightarrow>
   (case scanBook bankTx bookArr s j best of None \<Rightarrow> True | Some b \<Rightarrow> fst b < length bookArr)"
proof (induction bankTx bookArr s j best rule: scanBook.induct)
  case (1 bankTx bookArr s j bestMatch)
  show ?case
  proof (cases "j < length bookArr")
    case True
    have "scanBook bankTx bookArr s j bestMatch = scanBook bankTx bookArr s (j + 1)
              (if nge (calculateMatchConfidence bankTx (bookArr ! j) s) (Fin (fuzzyThreshold s)) \<and>
                  (case bestMatch of None \<Rightarrow> True | Some b \<Rightarrow> ngt (calculateMatchConfidence bankTx (bookArr ! j) s) (snd b))
               then Some (j, calculateMatchConfidence bankTx (bookArr ! j) s) else bestMatch)"
      using True by (subst scanBook.simps) (simp add: Let_def)
    moreover have "(case (if nge (calculateMatchConfidence bankTx (bookArr ! j) s) (Fin (fuzzyThreshold s)) \<and>
                  (case bestMatch of None \<Rightarrow> True | Some b \<Rightarrow> ngt (calculateMatchConfidence bankTx (bookArr ! j) s) (snd b))
               then Some (j, calculateMatchConfidence bankTx (bookArr ! j) s) else bestMatch) of None \<Rightarrow> True | Some b \<Rightarrow> fst b < length bookArr)"
      using True "1.prems" by simp
    ultimately show ?thesis using "1.IH"[OF True refl refl] by simp
  next
    case False
    then show ?thesis using "1.prems" by (subst scanBook.simps) simp
  qed
qed

lemma scanBook_index: "scanBook bankTx bookArr s 0 None = Some b \<Longrightarrow> fst b < length bookArr"
  using scanBook_index_aux[where best=None and bookArr=bookArr and bankTx=bankTx and s=s and j=0] by simp

lemma fuzzyBody_removal: "removalStep i st (fuzzyBody s i st)"
  by (cases st) (auto simp: removalStep_def fuzzyBody_def Let_def dest: scanBook_index split: option.splits)

lemma removalStep_length: "removalStep i st st' \<Longrightarrow> i < length (fst st) \<Longrightarrow> i \<le> length (fst st')"
  by (cases st) (auto simp: removalStep_def length_splice1)

lemma removalStep_partition:
  assumes "removalStep i st st'" "i < length (fst st)" "partitionInv bankTxs bookTxs st"
  shows "partitionInv bankTxs bookTxs st'"
proof -
  obtain bankArr bookArr ms where st: "st = (bankArr, bookArr, ms)" by (cases st)
  from assms(1) st consider "st' = st"
    | j c meth where "j < length bookArr"
        "st' = (splice1 i bankArr, splice1 j bookArr,
                ms @ [\<lparr>bankTransaction = bankArr ! i, bookTransaction = bookArr ! j,
                       confidence = c, matchMethod = meth\<rparr>])"
    by (auto simp: removalStep_def)
  then show ?thesis
  proof cases
    case 1 with assms(3) show ?thesis by simp
  next
    case 2
    have i: "i < length bankArr" using assms(2) st by simp
    have a: "add_mset (bankArr ! i) (mset (splice1 i bankArr)) = mset bankArr"
      by (rule mset_splice1[OF i])
    have b: "add_mset (bookArr ! j) (mset (splice1 j bookArr)) = mset bookArr"
      by (rule mset_splice1[OF 2(1)])
    have c: "subseq (splice1 i bankArr) bankTxs"
      using subseq_splice1[of i bankArr] assms(3) st
      by (auto simp: partitionInv_def intro: subseq_order.order_trans)
    have d: "subseq (splice1 j bookArr) bookTxs"
      using subseq_splice1[of j bookArr] assms(3) st
      by (auto simp: partitionInv_def intro: subseq_order.order_trans)
    from assms(3) st have
      e: "mset (map bankTransaction ms) + mset bankArr = mset bankTxs"
      and f: "mset (map bookTransaction ms) + mset bookArr = mset bookTxs"
      by (simp_all add: partitionInv_def)
    have "mset (map bankTransaction ms) + add_mset (bankArr ! i) (mset (splice1 i bankArr)) = mset bankTxs"
      using e a by simp
    moreover have "mset (map bookTransaction ms) + add_mset (bookArr ! j) (mset (splice1 j bookArr)) = mset bookTxs"
      using f b by simp
    ultimately show ?thesis using c d 2(2) by (simp add: partitionInv_def)
  qed
qed

lemma exactLoop_partition:
  "n \<le> length (fst st) \<Longrightarrow> partitionInv bankTxs bookTxs st \<Longrightarrow> partitionInv bankTxs bookTxs (exactLoop n st)"
proof (induction n arbitrary: st)
  case 0 then show ?case by simp
next
  case (Suc n)
  have lt: "n < length (fst st)" using Suc.prems(1) by simp
  have "n \<le> length (fst (exactBody n st))"
    by (rule removalStep_length[OF exactBody_removal lt])
  moreover have "partitionInv bankTxs bookTxs (exactBody n st)"
    by (rule removalStep_partition[OF exactBody_removal lt Suc.prems(2)])
  ultimately show ?case using Suc.IH by simp
qed

lemma fuzzyLoop_partition:
  "n \<le> length (fst st) \<Longrightarrow> partitionInv bankTxs bookTxs st \<Longrightarrow> partitionInv bankTxs bookTxs (fuzzyLoop s n st)"
proof (induction n arbitrary: st)
  case 0 then show ?case by simp
next
  case (Suc n)
  have lt: "n < length (fst st)" using Suc.prems(1) by simp
  have "n \<le> length (fst (fuzzyBody s n st))"
    by (rule removalStep_length[OF fuzzyBody_removal lt])
  moreover have "partitionInv bankTxs bookTxs (fuzzyBody s n st)"
    by (rule removalStep_partition[OF fuzzyBody_removal lt Suc.prems(2)])
  ultimately show ?case using Suc.IH by simp
qed

lemma partitionInv_init: "partitionInv bankTxs bookTxs (bankTxs, bookTxs, [])"
  by (simp add: partitionInv_def)

lemma matchTransactions_inv:
  "partitionInv bankTxs bookTxs
     (unmatchedBank (matchTransactions bankTxs bookTxs s),
      unmatchedBook (matchTransactions bankTxs bookTxs s),
      matched (matchTransactions bankTxs bookTxs s))"
proof -
  let ?st0 = "(bankTxs, bookTxs, [])"
  let ?st1 = "if autoMatchExact s then findExactMatches ?st0 else ?st0"
  let ?st2 = "if fuzzyMatching s then findFuzzyMatches ?st1 s else ?st1"
  have 1: "partitionInv bankTxs bookTxs ?st1"
    using exactLoop_partition[OF order_refl partitionInv_init, of bankTxs bookTxs]
    by (simp add: findExactMatches_def partitionInv_init)
  have 2: "partitionInv bankTxs bookTxs ?st2"
    using fuzzyLoop_partition[OF order_refl 1, of s] 1
    by (simp add: findFuzzyMatches_def)
  obtain a b c where abc: "?st2 = (a, b, c)" by (cases ?st2)
  then have "matchTransactions bankTxs bookTxs s = \<lparr>matched = c, unmatchedBank = a, unmatchedBook = b\<rparr>"
    by (simp add: matchTransactions_def Let_def)
  with 2 abc show ?thesis by simp
qed

section \<open>The confidence lies between 0 and 1\<close>

lemma nge_iff: "nge x y \<longleftrightarrow> (\<exists>a b. x = Fin a \<and> y = Fin b \<and> b \<le> a)"
  by (cases x; cases y) simp_all

lemma ngt_iff: "ngt x y \<longleftrightarrow> (\<exists>a b. x = Fin a \<and> y = Fin b \<and> b < a)"
  by (cases x; cases y) simp_all

lemma accOk_amount: "accOk acc \<Longrightarrow> accOk (amountBlock bankTx bookTx s acc)"
  by (cases acc; cases "fst acc") (auto simp: accOk_def amountBlock_def Let_def)

lemma accOk_date: "accOk acc \<Longrightarrow> accOk (dateBlock bankTx bookTx s acc)"
proof -
  assume a: "accOk acc"
  obtain sc w where acc: "acc = (sc, w)" by (cases acc)
  let ?d = "\<bar>real_of_int (date bankTx - date bookTx)\<bar> / (1000 * 60 * 60 * 24)"
  have d0: "0 \<le> ?d" by simp
  show ?thesis
  proof (cases "matchByDate s \<and> ?d \<le> dateTolerance s \<and> dateTolerance s \<noteq> 0")
    case True
    then have tol: "0 < dateTolerance s" using d0 by linarith
    have q0: "0 \<le> ?d / dateTolerance s" using d0 tol by simp
    have q1: "?d / dateTolerance s \<le> 1" using True tol by (simp add: divide_le_eq_1)
    have r0: "0 \<le> 0.3 * (1 - ?d / dateTolerance s)" using q1 by simp
    have r1: "0.3 * (1 - ?d / dateTolerance s) \<le> 0.3" using q0 by simp
    show ?thesis
    proof (cases sc)
      case NaN
      then show ?thesis using a acc True by (simp add: accOk_def dateBlock_def Let_def)
    next
      case (Fin t)
      then have "0 \<le> t" "t \<le> w" using a acc by (simp_all add: accOk_def)
      then have "0 \<le> t + 0.3 * (1 - ?d / dateTolerance s)" "t + 0.3 * (1 - ?d / dateTolerance s) \<le> w + 0.3" "0 \<le> w + 0.3"
        using r0 r1 by linarith+
      then show ?thesis using acc Fin True by (simp add: accOk_def dateBlock_def Let_def)
    qed
  next
    case False
    then show ?thesis using a acc
      by (cases sc) (auto simp: accOk_def dateBlock_def Let_def)
  qed
qed

lemma accOk_description: "accOk acc \<Longrightarrow> accOk (descriptionBlock bankTx bookTx s acc)"
proof -
  assume a: "accOk acc"
  obtain sc w where acc: "acc = (sc, w)" by (cases acc)
  let ?sim = "calculateStringSimilarity (toLowerCase (description bankTx)) (toLowerCase (description bookTx))"
  have "0 \<le> ?sim" "?sim \<le> 1" using calculateStringSimilarity_range by simp_all
  then have r: "0 \<le> 0.2 * ?sim" "0.2 * ?sim \<le> 0.2" by simp_all
  show ?thesis
  proof (cases sc)
    case NaN
    then show ?thesis using a acc by (simp add: accOk_def descriptionBlock_def Let_def)
  next
    case (Fin t)
    then have "0 \<le> t" "t \<le> w" using a acc by (simp_all add: accOk_def)
    then have "0 \<le> t + 0.2 * ?sim" "t + 0.2 * ?sim \<le> w + 0.2" "0 \<le> w + 0.2"
      using r by linarith+
    then show ?thesis using a acc Fin by (simp add: accOk_def descriptionBlock_def Let_def)
  qed
qed

lemma accOk_reference: "accOk acc \<Longrightarrow> accOk (referenceBlock bankTx bookTx s acc)"
proof -
  assume a: "accOk acc"
  obtain sc w where acc: "acc = (sc, w)" by (cases acc)
  let ?sim = "calculateStringSimilarity (toLowerCase (the (reference bankTx))) (toLowerCase (the (reference bookTx)))"
  have "0 \<le> ?sim" "?sim \<le> 1" using calculateStringSimilarity_range by simp_all
  then have r: "0 \<le> 0.1 * ?sim" "0.1 * ?sim \<le> 0.1" by simp_all
  show ?thesis
  proof (cases sc)
    case NaN
    then show ?thesis using a acc by (simp add: accOk_def referenceBlock_def Let_def)
  next
    case (Fin t)
    then have "0 \<le> t" "t \<le> w" using a acc by (simp_all add: accOk_def)
    then have "0 \<le> t + 0.1 * ?sim" "t + 0.1 * ?sim \<le> w + 0.1" "0 \<le> w + 0.1"
      using r by linarith+
    then show ?thesis using a acc Fin by (simp add: accOk_def referenceBlock_def Let_def)
  qed
qed

lemma calculateMatchConfidence_range:
  assumes "calculateMatchConfidence bankTx bookTx s = Fin c"
  shows "0 \<le> c \<and> c \<le> 1"
proof -
  let ?acc = "referenceBlock bankTx bookTx s (descriptionBlock bankTx bookTx s
               (dateBlock bankTx bookTx s (amountBlock bankTx bookTx s (Fin 0, 0))))"
  have "accOk (Fin 0, 0)" by (simp add: accOk_def)
  then have ok: "accOk ?acc"
    by (intro accOk_reference accOk_description accOk_date accOk_amount)
  obtain sc w where acc: "?acc = (sc, w)" by (cases ?acc)
  show ?thesis
  proof (cases "w > 0")
    case True
    with assms acc obtain t where t: "sc = Fin t" "c = t / w"
      by (cases sc) (auto simp: calculateMatchConfidence_def)
    with ok acc have "0 \<le> t" "t \<le> w" by (simp_all add: accOk_def)
    with True t show ?thesis by simp
  next
    case False
    with assms acc show ?thesis by (auto simp: calculateMatchConfidence_def)
  qed
qed


section \<open>The inner loop of the fuzzy pass\<close>

lemma scanBook_unfold:
  "scanBook bankTx bookArr s j bestMatch =
     (if j < length bookArr then
        scanBook bankTx bookArr s (j + 1)
          (if nge (calculateMatchConfidence bankTx (bookArr ! j) s) (Fin (fuzzyThreshold s)) \<and>
              (case bestMatch of None \<Rightarrow> True
               | Some b \<Rightarrow> ngt (calculateMatchConfidence bankTx (bookArr ! j) s) (snd b))
           then Some (j, calculateMatchConfidence bankTx (bookArr ! j) s) else bestMatch)
      else bestMatch)"
  by (subst scanBook.simps) (simp add: Let_def)

lemma bestInv_step:
  assumes "bestInv bankTx bookArr s j best"
  shows "bestInv bankTx bookArr s (Suc j)
           (if nge (calculateMatchConfidence bankTx (bookArr ! j) s) (Fin (fuzzyThreshold s)) \<and>
               (case best of None \<Rightarrow> True
                | Some b \<Rightarrow> ngt (calculateMatchConfidence bankTx (bookArr ! j) s) (snd b))
            then Some (j, calculateMatchConfidence bankTx (bookArr ! j) s) else best)"
proof (cases best)
  case None
  with assms show ?thesis
    by (auto simp: bestInv_def qualifies_def less_Suc_eq nge_iff ngt_iff)
next
  case (Some b)
  with assms show ?thesis
    by (auto simp: bestInv_def qualifies_def less_Suc_eq nge_iff ngt_iff)
qed

lemma scanBook_bestInv:
  "bestInv bankTx bookArr s j best \<Longrightarrow> j \<le> length bookArr \<Longrightarrow>
   bestInv bankTx bookArr s (length bookArr) (scanBook bankTx bookArr s j best)"
proof (induction bankTx bookArr s j best rule: scanBook.induct)
  case (1 bankTx bookArr s j bestMatch)
  show ?case
  proof (cases "j < length bookArr")
    case True
    let ?new = "if nge (calculateMatchConfidence bankTx (bookArr ! j) s) (Fin (fuzzyThreshold s)) \<and>
               (case bestMatch of None \<Rightarrow> True
                | Some b \<Rightarrow> ngt (calculateMatchConfidence bankTx (bookArr ! j) s) (snd b))
            then Some (j, calculateMatchConfidence bankTx (bookArr ! j) s) else bestMatch"
    have inv: "bestInv bankTx bookArr s (j + 1) ?new"
      using bestInv_step[OF "1.prems"(1)] by simp
    have "bestInv bankTx bookArr s (length bookArr) (scanBook bankTx bookArr s (j + 1) ?new)"
      using "1.IH"[OF True refl refl inv] True by simp
    then show ?thesis using True by (subst scanBook_unfold) simp
  next
    case False
    with "1.prems" have "j = length bookArr" by simp
    then show ?thesis using "1.prems"(1) by (subst scanBook_unfold) simp
  qed
qed

lemma scanBook_final: "bestInv bankTx bookArr s (length bookArr) (scanBook bankTx bookArr s 0 None)"
  by (rule scanBook_bestInv) (simp_all add: bestInv_def)

lemma scanBook_Some:
  assumes "scanBook bankTx bookArr s 0 None = Some b"
  shows "snd b = calculateMatchConfidence bankTx (bookArr ! fst b) s \<and> isBestCandidate bankTx bookArr s (fst b)"
  using scanBook_final[of bankTx bookArr s] assms
  by (auto simp: bestInv_def isBestCandidate_def)

lemma scanBook_None:
  "scanBook bankTx bookArr s 0 None = None \<longleftrightarrow> (\<forall>j<length bookArr. \<not> qualifies bankTx bookArr s j)"
  using scanBook_final[of bankTx bookArr s]
  by (auto simp: bestInv_def split: option.splits)

lemma scanBook_confidence:
  assumes "scanBook bankTx bookArr s 0 None = Some b"
  shows "\<exists>c. snd b = Fin c \<and> fuzzyThreshold s \<le> c \<and> c \<le> 1"
proof -
  from scanBook_Some[OF assms] have e: "snd b = calculateMatchConfidence bankTx (bookArr ! fst b) s"
    and q: "qualifies bankTx bookArr s (fst b)" by (simp_all add: isBestCandidate_def)
  from q e obtain c where c: "snd b = Fin c" "fuzzyThreshold s \<le> c"
    by (auto simp: qualifies_def nge_iff)
  from c e have "calculateMatchConfidence bankTx (bookArr ! fst b) s = Fin c" by simp
  from calculateMatchConfidence_range[OF this] c show ?thesis by blast
qed

lemma exactBody_fuzzyOk: "fuzzyOk thr (snd (snd st)) \<Longrightarrow> fuzzyOk thr (snd (snd (exactBody i st)))"
  by (cases st) (auto simp: exactBody_def fuzzyOk_def Let_def split: option.splits)

lemma exactLoop_fuzzyOk: "fuzzyOk thr (snd (snd st)) \<Longrightarrow> fuzzyOk thr (snd (snd (exactLoop n st)))"
  by (induction n arbitrary: st) (simp_all add: exactBody_fuzzyOk)

lemma fuzzyBody_fuzzyOk:
  assumes "fuzzyOk (fuzzyThreshold s) (snd (snd st))"
  shows "fuzzyOk (fuzzyThreshold s) (snd (snd (fuzzyBody s i st)))"
proof -
  obtain bankArr bookArr ms where st: "st = (bankArr, bookArr, ms)" by (cases st)
  show ?thesis
  proof (cases "scanBook (bankArr ! i) bookArr s 0 None")
    case None
    with assms st show ?thesis by (simp add: fuzzyBody_def Let_def)
  next
    case (Some b)
    from scanBook_confidence[OF Some] obtain c where "snd b = Fin c" "fuzzyThreshold s \<le> c" "c \<le> 1"
      by blast
    with assms st Some show ?thesis by (auto simp: fuzzyBody_def Let_def fuzzyOk_def)
  qed
qed

lemma fuzzyLoop_fuzzyOk:
  "fuzzyOk (fuzzyThreshold s) (snd (snd st)) \<Longrightarrow> fuzzyOk (fuzzyThreshold s) (snd (snd (fuzzyLoop s n st)))"
  by (induction n arbitrary: st) (simp_all add: fuzzyBody_fuzzyOk)

lemma matched_matchTransactions:
  "matched (matchTransactions bankTxs bookTxs s) =
     snd (snd (if fuzzyMatching s
               then findFuzzyMatches (if autoMatchExact s then findExactMatches (bankTxs, bookTxs, [])
                                      else (bankTxs, bookTxs, [])) s
               else (if autoMatchExact s then findExactMatches (bankTxs, bookTxs, [])
                     else (bankTxs, bookTxs, []))))"
  by (simp add: matchTransactions_def Let_def split: prod.splits)

lemma matchTransactions_fuzzyOk:
  "fuzzyOk (fuzzyThreshold s) (matched (matchTransactions bankTxs bookTxs s))"
proof -
  have 0: "fuzzyOk (fuzzyThreshold s) (snd (snd (bankTxs, bookTxs, [])))" by (simp add: fuzzyOk_def)
  have 1: "fuzzyOk (fuzzyThreshold s) (snd (snd (if autoMatchExact s then findExactMatches (bankTxs, bookTxs, [])
                                      else (bankTxs, bookTxs, []))))"
    using exactLoop_fuzzyOk[OF 0] 0 by (simp add: findExactMatches_def)
  show ?thesis
    unfolding matched_matchTransactions
    using fuzzyLoop_fuzzyOk[OF 1] 1 by (simp add: findFuzzyMatches_def)
qed

lemma isBestCandidate_unique:
  assumes "isBestCandidate bankTx bookArr s j" "isBestCandidate bankTx bookArr s j'"
  shows "j = j'"
proof (rule ccontr)
  assume ne: "j \<noteq> j'"
  have *: False if a: "isBestCandidate bankTx bookArr s x" and b: "isBestCandidate bankTx bookArr s y"
    and lt: "x < y" for x y
  proof -
    from a have qx: "qualifies bankTx bookArr s x" by (simp add: isBestCandidate_def)
    from b have "y < length bookArr" "qualifies bankTx bookArr s y" by (simp_all add: isBestCandidate_def)
    with a have 1: "nge (calculateMatchConfidence bankTx (bookArr ! x) s) (calculateMatchConfidence bankTx (bookArr ! y) s)"
      by (simp add: isBestCandidate_def)
    from b lt qx have 2: "ngt (calculateMatchConfidence bankTx (bookArr ! y) s) (calculateMatchConfidence bankTx (bookArr ! x) s)"
      by (simp add: isBestCandidate_def)
    from 1 2 show False by (auto simp: nge_iff ngt_iff)
  qed
  from ne have "j < j' \<or> j' < j" by linarith
  then show False using *[OF assms(1) assms(2)] *[OF assms(2) assms(1)] by blast
qed

lemma sample_confidences:
  "calculateMatchConfidence (sampleTx ''b1'' 0 ''Rent'' 100 None) (sampleTx ''k0'' 259200000 ''Rent'' 100 None) defaultSettings = Fin (2 / 3)"
  "calculateMatchConfidence (sampleTx ''b1'' 0 ''Rent'' 100 None) (sampleTx ''k1'' 86400000 ''Rent'' 100 None) defaultSettings = Fin (8 / 9)"
  "calculateMatchConfidence (sampleTx ''b1'' 0 ''Rent'' 100 None) (sampleTx ''k2'' 86400000 ''Rent'' 100 None) defaultSettings = Fin (8 / 9)"
  by (simp_all add: calculateMatchConfidence_def amountBlock_def dateBlock_def descriptionBlock_def
        referenceBlock_def sampleTx_def defaultSettings_def truthy_def calculateStringSimilarity_def Let_def)

text \<open>
  The whole pass: the iterations form a sequence of turns from the last bank index down to
  0, the pairs it appends are the ones formed at those turns, and afterwards no remaining
  bank transaction reaches the threshold with a remaining book transaction.
\<close>

lemma fuzzyBody_turn:
  assumes "i < length (fst st)"
  shows "fuzzyTurn s i st (fuzzyBody s i st)"
proof -
  obtain bankArr bookArr ms where st: "st = (bankArr, bookArr, ms)" by (cases st)
  have i: "i < length bankArr" using assms st by simp
  show ?thesis
  proof (cases "scanBook (bankArr ! i) bookArr s 0 None")
    case None
    then have "\<forall>k<length bookArr. \<not> qualifies (bankArr ! i) bookArr s k"
      by (simp add: scanBook_None)
    moreover have "fuzzyBody s i st = st" using None st by (simp add: fuzzyBody_def Let_def)
    ultimately show ?thesis using i st by (simp add: fuzzyTurn_def)
  next
    case (Some b)
    from scanBook_Some[OF Some] have c: "snd b = calculateMatchConfidence (bankArr ! i) (bookArr ! fst b) s"
      and best: "isBestCandidate (bankArr ! i) bookArr s (fst b)" by simp_all
    have "fuzzyBody s i st = (splice1 i bankArr, splice1 (fst b) bookArr,
             ms @ [\<lparr>bankTransaction = bankArr ! i, bookTransaction = bookArr ! fst b,
                    confidence = calculateMatchConfidence (bankArr ! i) (bookArr ! fst b) s,
                    matchMethod = fuzzy\<rparr>])"
      using Some c st by (simp add: fuzzyBody_def Let_def)
    with best i st show ?thesis unfolding fuzzyTurn_def by (simp only: prod.case) blast
  qed
qed

lemma fuzzyBody_matched:
  assumes "i < length (fst st)"
  shows "snd (snd (fuzzyBody s i st)) = snd (snd st) \<or>
         (\<exists>m. snd (snd (fuzzyBody s i st)) = snd (snd st) @ [m] \<and> pairedAt s i st m)"
proof -
  obtain bankArr bookArr ms where st: "st = (bankArr, bookArr, ms)" by (cases st)
  have i: "i < length bankArr" using assms st by simp
  from fuzzyBody_turn[OF assms, of s] st consider
    j where "isBestCandidate (bankArr ! i) bookArr s j"
      "fuzzyBody s i st = (splice1 i bankArr, splice1 j bookArr,
         ms @ [\<lparr>bankTransaction = bankArr ! i, bookTransaction = bookArr ! j,
                confidence = calculateMatchConfidence (bankArr ! i) (bookArr ! j) s,
                matchMethod = fuzzy\<rparr>])"
    | "fuzzyBody s i st = st"
    by (auto simp: fuzzyTurn_def)
  then show ?thesis
  proof cases
    case 1
    have "pairedAt s i st \<lparr>bankTransaction = bankArr ! i, bookTransaction = bookArr ! j,
                confidence = calculateMatchConfidence (bankArr ! i) (bookArr ! j) s,
                matchMethod = fuzzy\<rparr>"
      unfolding pairedAt_def st using i 1(1) by (simp only: prod.case) blast
    with 1(2) st show ?thesis by simp
  next
    case 2
    then show ?thesis by simp
  qed
qed

lemma fuzzyLoop_trace:
  "n \<le> length (fst st) \<Longrightarrow>
   \<exists>tr new. tr n = st \<and> tr 0 = fuzzyLoop s n st \<and>
     (\<forall>i<n. fuzzyTurn s i (tr (Suc i)) (tr i)) \<and>
     snd (snd (fuzzyLoop s n st)) = snd (snd st) @ new \<and>
     (\<forall>m\<in>set new. \<exists>i<n. pairedAt s i (tr (Suc i)) m)"
proof (induction n arbitrary: st)
  case 0
  show ?case by (rule exI[of _ "\<lambda>_. st"], rule exI[of _ "[]"]) simp
next
  case (Suc n)
  have lt: "n < length (fst st)" using Suc.prems by simp
  let ?st1 = "fuzzyBody s n st"
  have le: "n \<le> length (fst ?st1)"
    by (rule removalStep_length[OF fuzzyBody_removal lt])
  from Suc.IH[OF le] obtain tr new where tr: "tr n = ?st1" "tr 0 = fuzzyLoop s n ?st1"
    "\<forall>i<n. fuzzyTurn s i (tr (Suc i)) (tr i)"
    "snd (snd (fuzzyLoop s n ?st1)) = snd (snd ?st1) @ new"
    "\<forall>m\<in>set new. \<exists>i<n. pairedAt s i (tr (Suc i)) m" by blast
  let ?tr = "tr(Suc n := st)"
  have a: "?tr (Suc n) = st" by simp
  have b: "?tr 0 = fuzzyLoop s (Suc n) st" using tr(2) by simp
  have c: "fuzzyTurn s i (?tr (Suc i)) (?tr i)" if "i < Suc n" for i
  proof (cases "i = n")
    case True
    then show ?thesis using fuzzyBody_turn[OF lt, of s] tr(1) by simp
  next
    case False
    with that have "i < n" by simp
    then show ?thesis using tr(3) by simp
  qed
  have old: "\<exists>i<Suc n. pairedAt s i (?tr (Suc i)) m" if "m \<in> set new" for m
  proof -
    from tr(5) that obtain i where "i < n" "pairedAt s i (tr (Suc i)) m" by blast
    then show ?thesis by (intro exI[of _ i]) simp
  qed
  from fuzzyBody_matched[OF lt, of s]
  have "\<exists>new'. snd (snd (fuzzyLoop s (Suc n) st)) = snd (snd st) @ new' \<and>
               (\<forall>m\<in>set new'. \<exists>i<Suc n. pairedAt s i (?tr (Suc i)) m)"
  proof
    assume e: "snd (snd ?st1) = snd (snd st)"
    show ?thesis
      by (rule exI[of _ new]) (use e tr(4) old in simp)
  next
    assume "\<exists>m. snd (snd ?st1) = snd (snd st) @ [m] \<and> pairedAt s n st m"
    then obtain m0 where m0: "snd (snd ?st1) = snd (snd st) @ [m0]" "pairedAt s n st m0" by blast
    have first: "\<exists>i<Suc n. pairedAt s i (?tr (Suc i)) m0"
      by (rule exI[of _ n]) (use m0(2) in simp)
    show ?thesis
      by (rule exI[of _ "m0 # new"]) (use m0(1) tr(4) old first in auto)
  qed
  then obtain new' where d: "snd (snd (fuzzyLoop s (Suc n) st)) = snd (snd st) @ new'"
    "\<forall>m\<in>set new'. \<exists>i<Suc n. pairedAt s i (?tr (Suc i)) m" by blast
  show ?case
    by (rule exI[of _ ?tr], rule exI[of _ new']) (use a b c d in blast)
qed

lemma not_qualifies_set:
  "(\<forall>k<length bookArr. \<not> qualifies bankTx bookArr s k) \<longleftrightarrow>
   (\<forall>k\<in>set bookArr. \<not> nge (calculateMatchConfidence bankTx k s) (Fin (fuzzyThreshold s)))"
proof
  assume a: "\<forall>k<length bookArr. \<not> qualifies bankTx bookArr s k"
  show "\<forall>k\<in>set bookArr. \<not> nge (calculateMatchConfidence bankTx k s) (Fin (fuzzyThreshold s))"
  proof
    fix k assume "k \<in> set bookArr"
    then obtain p where "p < length bookArr" "bookArr ! p = k" by (auto simp: in_set_conv_nth)
    with a show "\<not> nge (calculateMatchConfidence bankTx k s) (Fin (fuzzyThreshold s))"
      by (auto simp: qualifies_def)
  qed
next
  assume a: "\<forall>k\<in>set bookArr. \<not> nge (calculateMatchConfidence bankTx k s) (Fin (fuzzyThreshold s))"
  show "\<forall>k<length bookArr. \<not> qualifies bankTx bookArr s k"
  proof (intro allI impI)
    fix k assume "k < length bookArr"
    then have "bookArr ! k \<in> set bookArr" by simp
    with a show "\<not> qualifies bankTx bookArr s k" by (simp add: qualifies_def)
  qed
qed

lemma fuzzyBody_noFuzzy:
  assumes "i < length (fst st)" "noFuzzyFrom s (Suc i) st"
  shows "noFuzzyFrom s i (fuzzyBody s i st)"
proof -
  obtain bankArr bookArr ms where st: "st = (bankArr, bookArr, ms)" by (cases st)
  have i: "i < length bankArr" using assms(1) st by simp
  have old: "\<And>p k. Suc i \<le> p \<Longrightarrow> p < length bankArr \<Longrightarrow> k \<in> set bookArr \<Longrightarrow>
       \<not> nge (calculateMatchConfidence (bankArr ! p) k s) (Fin (fuzzyThreshold s))"
    using assms(2) st by (auto simp: noFuzzyFrom_def)
  show ?thesis
  proof (cases "scanBook (bankArr ! i) bookArr s 0 None")
    case None
    then have none: "\<And>k. k \<in> set bookArr \<Longrightarrow>
        \<not> nge (calculateMatchConfidence (bankArr ! i) k s) (Fin (fuzzyThreshold s))"
      by (simp add: scanBook_None not_qualifies_set)
    have "fuzzyBody s i st = st" using None st by (simp add: fuzzyBody_def Let_def)
    moreover have "noFuzzyFrom s i st"
      unfolding noFuzzyFrom_def st
    proof (clarsimp)
      fix p k assume p: "i \<le> p" "p < length bankArr" and k: "k \<in> set bookArr"
        and e: "nge (calculateMatchConfidence (bankArr ! p) k s) (Fin (fuzzyThreshold s))"
      show False
      proof (cases "p = i")
        case True with none[OF k] e show False by simp
      next
        case False with p have "Suc i \<le> p" by simp
        from old[OF this p(2) k] e show False by simp
      qed
    qed
    ultimately show ?thesis by simp
  next
    case (Some b)
    have eq: "fuzzyBody s i st = (splice1 i bankArr, splice1 (fst b) bookArr,
        ms @ [\<lparr>bankTransaction = bankArr ! i, bookTransaction = bookArr ! fst b,
               confidence = snd b, matchMethod = fuzzy\<rparr>])"
      using Some st by (simp add: fuzzyBody_def Let_def)
    show ?thesis
      unfolding eq noFuzzyFrom_def
    proof (clarsimp)
      fix p k assume p: "i \<le> p" "p < length (splice1 i bankArr)" and k: "k \<in> set (splice1 (fst b) bookArr)"
        and e: "nge (calculateMatchConfidence (splice1 i bankArr ! p) k s) (Fin (fuzzyThreshold s))"
      have n: "splice1 i bankArr ! p = bankArr ! Suc p" using p by (simp add: nth_splice1)
      have l: "Suc p < length bankArr" using p(2) i by (simp add: length_splice1)
      have k': "k \<in> set bookArr" by (rule subsetD[OF set_splice1 k])
      from old[of "Suc p" k] p(1) l k' e n show False by simp
    qed
  qed
qed

lemma fuzzyLoop_noFuzzy:
  "n \<le> length (fst st) \<Longrightarrow> noFuzzyFrom s n st \<Longrightarrow> noFuzzyFrom s 0 (fuzzyLoop s n st)"
proof (induction n arbitrary: st)
  case 0 then show ?case by simp
next
  case (Suc n)
  have lt: "n < length (fst st)" using Suc.prems(1) by simp
  have "n \<le> length (fst (fuzzyBody s n st))"
    by (rule removalStep_length[OF fuzzyBody_removal lt])
  moreover have "noFuzzyFrom s n (fuzzyBody s n st)"
    by (rule fuzzyBody_noFuzzy[OF lt Suc.prems(2)])
  ultimately show ?case using Suc.IH by simp
qed

lemma findFuzzyMatches_none_left:
  assumes "b \<in> set (fst (findFuzzyMatches st s))" "k \<in> set (fst (snd (findFuzzyMatches st s)))"
  shows "\<not> nge (calculateMatchConfidence b k s) (Fin (fuzzyThreshold s))"
proof -
  obtain bank' book' ms' where r: "findFuzzyMatches st s = (bank', book', ms')"
    by (cases "findFuzzyMatches st s")
  have "noFuzzyFrom s (length (fst st)) st" by (cases st) (auto simp: noFuzzyFrom_def)
  then have "noFuzzyFrom s 0 (fuzzyLoop s (length (fst st)) st)"
    by (intro fuzzyLoop_noFuzzy) simp_all
  then have n0: "noFuzzyFrom s 0 (bank', book', ms')" using r by (simp add: findFuzzyMatches_def)
  from assms(1) r obtain p where p: "p < length bank'" "bank' ! p = b"
    by (auto simp: in_set_conv_nth)
  from assms(2) r have "k \<in> set book'" by simp
  with n0 p(1) have "\<not> nge (calculateMatchConfidence (bank' ! p) k s) (Fin (fuzzyThreshold s))"
    by (simp add: noFuzzyFrom_def)
  with p(2) show ?thesis by simp
qed

lemma matchTransactions_phase2:
  "fuzzyMatching s \<Longrightarrow>
   (unmatchedBank (matchTransactions bankTxs bookTxs s),
    unmatchedBook (matchTransactions bankTxs bookTxs s),
    matched (matchTransactions bankTxs bookTxs s)) =
   findFuzzyMatches (if autoMatchExact s then findExactMatches (bankTxs, bookTxs, [])
                     else (bankTxs, bookTxs, [])) s"
  by (simp add: matchTransactions_def Let_def split: prod.splits)

lemma sample_pass:
  "findFuzzyMatches
     ([sampleTx ''b0'' 0 ''Fuel'' 40 None, sampleTx ''b1'' 0 ''Rent'' 100 None,
       sampleTx ''b2'' 0 ''Rent'' 100 None],
      [sampleTx ''k0'' 259200000 ''Rent'' 100 None, sampleTx ''k1'' 86400000 ''Rent'' 100 None,
       sampleTx ''k2'' 86400000 ''Rent'' 100 None], []) defaultSettings
   = ([sampleTx ''b0'' 0 ''Fuel'' 40 None],
      [sampleTx ''k0'' 259200000 ''Rent'' 100 None],
      [\<lparr>bankTransaction = sampleTx ''b2'' 0 ''Rent'' 100 None,
        bookTransaction = sampleTx ''k1'' 86400000 ''Rent'' 100 None,
        confidence = Fin (8 / 9), matchMethod = fuzzy\<rparr>,
       \<lparr>bankTransaction = sampleTx ''b1'' 0 ''Rent'' 100 None,
        bookTransaction = sampleTx ''k2'' 86400000 ''Rent'' 100 None,
        confidence = Fin (8 / 9), matchMethod = fuzzy\<rparr>])"
  by code_simp


section \<open>The exact pass leaves no exact pair behind\<close>

lemma exactBody_exactOk: "exactOk (snd (snd st)) \<Longrightarrow> exactOk (snd (snd (exactBody i st)))"
  by (cases st) (auto simp: exactBody_def exactOk_def Let_def dest: findIndex_Some split: option.splits)

lemma exactLoop_exactOk: "exactOk (snd (snd st)) \<Longrightarrow> exactOk (snd (snd (exactLoop n st)))"
  by (induction n arbitrary: st) (simp_all add: exactBody_exactOk)

lemma exactBody_noExact:
  assumes "i < length (fst st)" "noExactFrom (Suc i) st"
  shows "noExactFrom i (exactBody i st)"
proof -
  obtain bankArr bookArr ms where st: "st = (bankArr, bookArr, ms)" by (cases st)
  have i: "i < length bankArr" using assms(1) st by simp
  have old: "\<And>p k. Suc i \<le> p \<Longrightarrow> p < length bankArr \<Longrightarrow> k \<in> set bookArr \<Longrightarrow> \<not> exactPredicate (bankArr ! p) k"
    using assms(2) st by (auto simp: noExactFrom_def)
  show ?thesis
  proof (cases "findIndex (exactPredicate (bankArr ! i)) bookArr")
    case None
    then have none: "\<And>k. k \<in> set bookArr \<Longrightarrow> \<not> exactPredicate (bankArr ! i) k"
      by (simp add: findIndex_None)
    have "exactBody i st = st" using None st by (simp add: exactBody_def Let_def)
    moreover have "noExactFrom i st"
      unfolding noExactFrom_def st
    proof (clarsimp)
      fix p k assume p: "i \<le> p" "p < length bankArr" and k: "k \<in> set bookArr"
        and e: "exactPredicate (bankArr ! p) k"
      show False
      proof (cases "p = i")
        case True with none[OF k] e show False by simp
      next
        case False with p have "Suc i \<le> p" by simp
        from old[OF this p(2) k] e show False by simp
      qed
    qed
    ultimately show ?thesis by simp
  next
    case (Some j)
    have eq: "exactBody i st = (splice1 i bankArr, splice1 j bookArr,
        ms @ [\<lparr>bankTransaction = bankArr ! i, bookTransaction = bookArr ! j,
               confidence = Fin 1, matchMethod = exact\<rparr>])"
      using Some st by (simp add: exactBody_def Let_def)
    show ?thesis
      unfolding eq noExactFrom_def
    proof (clarsimp)
      fix p k assume p: "i \<le> p" "p < length (splice1 i bankArr)" and k: "k \<in> set (splice1 j bookArr)"
        and e: "exactPredicate (splice1 i bankArr ! p) k"
      have n: "splice1 i bankArr ! p = bankArr ! Suc p" using p by (simp add: nth_splice1)
      have l: "Suc p < length bankArr" using p(2) i by (simp add: length_splice1)
      have k': "k \<in> set bookArr" by (rule subsetD[OF set_splice1 k])
      from old[of "Suc p" k] p(1) l k' e n show False by simp
    qed
  qed
qed

lemma exactLoop_noExact:
  "n \<le> length (fst st) \<Longrightarrow> noExactFrom n st \<Longrightarrow> noExactFrom 0 (exactLoop n st)"
proof (induction n arbitrary: st)
  case 0 then show ?case by simp
next
  case (Suc n)
  have lt: "n < length (fst st)" using Suc.prems(1) by simp
  have "n \<le> length (fst (exactBody n st))"
    by (rule removalStep_length[OF exactBody_removal lt])
  moreover have "noExactFrom n (exactBody n st)"
    by (rule exactBody_noExact[OF lt Suc.prems(2)])
  ultimately show ?case using Suc.IH by simp
qed

lemma removalStep_matched: "removalStep i st st' \<Longrightarrow> set (snd (snd st)) \<subseteq> set (snd (snd st'))"
  by (cases st) (auto simp: removalStep_def)

lemma fuzzyLoop_matched: "set (snd (snd st)) \<subseteq> set (snd (snd (fuzzyLoop s n st)))"
proof (induction n arbitrary: st)
  case 0 then show ?case by simp
next
  case (Suc n)
  have "set (snd (snd st)) \<subseteq> set (snd (snd (fuzzyBody s n st)))"
    by (rule removalStep_matched[OF fuzzyBody_removal])
  also have "\<dots> \<subseteq> set (snd (snd (fuzzyLoop s n (fuzzyBody s n st))))" by (rule Suc.IH)
  finally show ?case by simp
qed

lemma phase1_facts:
  assumes "b \<in> set bankTxs" "k \<in> set bookTxs" "exactPredicate b k"
  shows "\<exists>m \<in> set (snd (snd (findExactMatches (bankTxs, bookTxs, [])))).
           confidence m = Fin 1 \<and> matchMethod m = exact \<and>
           exactPredicate (bankTransaction m) (bookTransaction m) \<and>
           bankTransaction m \<in> set bankTxs \<and> bookTransaction m \<in> set bookTxs \<and>
           (bankTransaction m = b \<or> bookTransaction m = k)"
proof -
  let ?st0 = "(bankTxs, bookTxs, [])"
  obtain bank1 book1 ms1 where st1: "findExactMatches ?st0 = (bank1, book1, ms1)"
    by (cases "findExactMatches ?st0")
  have part: "partitionInv bankTxs bookTxs (bank1, book1, ms1)"
    using exactLoop_partition[OF order_refl partitionInv_init, of bankTxs bookTxs] st1
    by (simp add: findExactMatches_def)
  have ok: "exactOk ms1"
    using exactLoop_exactOk[of ?st0 "length bankTxs"] st1
    by (simp add: findExactMatches_def exactOk_def)
  have "noExactFrom (length bankTxs) ?st0" by (auto simp: noExactFrom_def)
  then have "noExactFrom 0 (exactLoop (length bankTxs) ?st0)"
    by (intro exactLoop_noExact) simp_all
  then have no0: "noExactFrom 0 (bank1, book1, ms1)"
    using st1 by (simp add: findExactMatches_def)
  have no: "\<not> exactPredicate b' k'" if "b' \<in> set bank1" "k' \<in> set book1" for b' k'
  proof -
    from that(1) obtain p where p: "p < length bank1" "bank1 ! p = b'"
      by (auto simp: in_set_conv_nth)
    from no0 p(1) that(2) have "\<not> exactPredicate (bank1 ! p) k'"
      by (simp add: noExactFrom_def)
    with p(2) show ?thesis by simp
  qed
  from part have pb: "mset (map bankTransaction ms1) + mset bank1 = mset bankTxs"
    and pk: "mset (map bookTransaction ms1) + mset book1 = mset bookTxs"
    by (simp_all add: partitionInv_def)
  have setb: "set bankTxs = bankTransaction ` set ms1 \<union> set bank1"
    using arg_cong[OF pb, of set_mset] by simp
  have setk: "set bookTxs = bookTransaction ` set ms1 \<union> set book1"
    using arg_cong[OF pk, of set_mset] by simp
  have "b \<notin> set bank1 \<or> k \<notin> set book1" using no assms(3) by blast
  then have "b \<in> bankTransaction ` set ms1 \<or> k \<in> bookTransaction ` set ms1"
    using assms(1,2) setb setk by blast
  then obtain m where m: "m \<in> set ms1" "bankTransaction m = b \<or> bookTransaction m = k" by auto
  from m(1) ok have "confidence m = Fin 1" "matchMethod m = exact"
    "exactPredicate (bankTransaction m) (bookTransaction m)" by (simp_all add: exactOk_def)
  moreover have "bankTransaction m \<in> set bankTxs" "bookTransaction m \<in> set bookTxs"
    using m(1) setb setk by auto
  ultimately show ?thesis using m st1 by (intro bexI[of _ m]) simp_all
qed


section \<open>The store: what the matcher writes, and agreement with the value model\<close>

lemma frameInv_refl: "frameInv bankA bookA matchedA st st"
  by (simp add: frameInv_def)

lemma frameInv_trans:
  "frameInv bankA bookA matchedA st st' \<Longrightarrow> frameInv bankA bookA matchedA st' st'' \<Longrightarrow>
   frameInv bankA bookA matchedA st st''"
  by (simp add: frameInv_def)

lemma removal_frame:
  "frameInv bankA bookA matchedA st (spliceTx bookA j (spliceTx bankA i (pushMatch matchedA m st)))"
  by (simp add: frameInv_def spliceTx_def pushMatch_def)

lemma exactBody_store_frame: "frameInv bankA bookA matchedA st (exactBody_store bankA bookA matchedA i st)"
  by (simp add: exactBody_store_def Let_def removal_frame frameInv_refl split: option.splits)

lemma fuzzyBody_store_frame: "frameInv bankA bookA matchedA st (fuzzyBody_store s bankA bookA matchedA i st)"
  by (simp add: fuzzyBody_store_def Let_def removal_frame frameInv_refl split: option.splits)

lemma exactLoop_store_frame: "frameInv bankA bookA matchedA st (exactLoop_store bankA bookA matchedA n st)"
proof (induction n arbitrary: st)
  case 0 show ?case by (simp add: frameInv_refl)
next
  case (Suc n)
  show ?case
    using frameInv_trans[OF exactBody_store_frame Suc.IH] by simp
qed

lemma fuzzyLoop_store_frame: "frameInv bankA bookA matchedA st (fuzzyLoop_store s bankA bookA matchedA n st)"
proof (induction n arbitrary: st)
  case 0 show ?case by (simp add: frameInv_refl)
next
  case (Suc n)
  show ?case
    using frameInv_trans[OF fuzzyBody_store_frame Suc.IH] by simp
qed

lemma removal_refs:
  assumes "refsInv bankA bookA matchedA B K st" "bankA \<noteq> bookA"
    "i < length (txArrays st bankA)" "j < length (txArrays st bookA)"
  shows "refsInv bankA bookA matchedA B K
           (spliceTx bookA j (spliceTx bankA i
              (pushMatch matchedA \<lparr>bankTransactionRef = txArrays st bankA ! i,
                                    bookTransactionRef = txArrays st bookA ! j,
                                    confidenceVal = c, matchMethodVal = meth\<rparr> st)))"
proof -
  have a: "set (splice1 i (txArrays st bankA)) \<subseteq> B"
    using set_splice1[of i "txArrays st bankA"] assms(1) by (auto simp: refsInv_def)
  have b: "set (splice1 j (txArrays st bookA)) \<subseteq> K"
    using set_splice1[of j "txArrays st bookA"] assms(1) by (auto simp: refsInv_def)
  have c: "txArrays st bankA ! i \<in> B" using assms(1,3) by (auto simp: refsInv_def)
  have d: "txArrays st bookA ! j \<in> K" using assms(1,4) by (auto simp: refsInv_def)
  show ?thesis
    using a b c d assms(1,2) by (auto simp: refsInv_def spliceTx_def pushMatch_def)
qed

lemma removal_length:
  "bankA \<noteq> bookA \<Longrightarrow> i < length (txArrays st bankA) \<Longrightarrow>
   i \<le> length (txArrays (spliceTx bookA j (spliceTx bankA i (pushMatch matchedA m st))) bankA)"
  by (simp add: spliceTx_def pushMatch_def length_splice1)

lemma exactBody_store_refs:
  assumes "refsInv bankA bookA matchedA B K st" "bankA \<noteq> bookA" "i < length (txArrays st bankA)"
  shows "refsInv bankA bookA matchedA B K (exactBody_store bankA bookA matchedA i st) \<and>
         i \<le> length (txArrays (exactBody_store bankA bookA matchedA i st) bankA)"
proof (cases "findIndex (\<lambda>bookTx. exactPredicate (txObjects st (txArrays st bankA ! i)) (txObjects st bookTx))
                 (txArrays st bookA)")
  case None
  then show ?thesis using assms by (simp add: exactBody_store_def Let_def)
next
  case (Some j)
  from findIndex_Some[OF Some] have j: "j < length (txArrays st bookA)" by simp
  show ?thesis
    using Some removal_refs[OF assms(1,2,3) j] removal_length[OF assms(2,3)]
    by (simp add: exactBody_store_def Let_def)
qed

lemma fuzzyBody_store_refs:
  assumes "refsInv bankA bookA matchedA B K st" "bankA \<noteq> bookA" "i < length (txArrays st bankA)"
  shows "refsInv bankA bookA matchedA B K (fuzzyBody_store s bankA bookA matchedA i st) \<and>
         i \<le> length (txArrays (fuzzyBody_store s bankA bookA matchedA i st) bankA)"
proof (cases "scanBook (txObjects st (txArrays st bankA ! i)) (map (txObjects st) (txArrays st bookA)) s 0 None")
  case None
  then show ?thesis using assms by (simp add: fuzzyBody_store_def Let_def)
next
  case (Some b)
  from scanBook_index[OF Some] have j: "fst b < length (txArrays st bookA)" by simp
  show ?thesis
    using Some removal_refs[OF assms(1,2,3) j] removal_length[OF assms(2,3)]
    by (simp add: fuzzyBody_store_def Let_def)
qed

lemma exactLoop_store_refs:
  "refsInv bankA bookA matchedA B K st \<Longrightarrow> bankA \<noteq> bookA \<Longrightarrow> n \<le> length (txArrays st bankA) \<Longrightarrow>
   refsInv bankA bookA matchedA B K (exactLoop_store bankA bookA matchedA n st)"
proof (induction n arbitrary: st)
  case 0 then show ?case by simp
next
  case (Suc n)
  have lt: "n < length (txArrays st bankA)" using Suc.prems(3) by simp
  from exactBody_store_refs[OF Suc.prems(1,2) lt]
  show ?case using Suc.IH Suc.prems(2) by simp
qed

lemma fuzzyLoop_store_refs:
  "refsInv bankA bookA matchedA B K st \<Longrightarrow> bankA \<noteq> bookA \<Longrightarrow> n \<le> length (txArrays st bankA) \<Longrightarrow>
   refsInv bankA bookA matchedA B K (fuzzyLoop_store s bankA bookA matchedA n st)"
proof (induction n arbitrary: st)
  case 0 then show ?case by simp
next
  case (Suc n)
  have lt: "n < length (txArrays st bankA)" using Suc.prems(3) by simp
  from fuzzyBody_store_refs[OF Suc.prems(1,2) lt]
  show ?case using Suc.IH Suc.prems(2) by simp
qed

lemma allocated3_simps:
  "txObjects (allocated3 bankIn bookIn st) = txObjects st"
  "dataObjects (allocated3 bankIn bookIn st) = dataObjects st"
  "fresh (allocated3 bankIn bookIn st) = fresh st + 3"
  "a < fresh st \<Longrightarrow> txArrays (allocated3 bankIn bookIn st) a = txArrays st a"
  "a < fresh st \<Longrightarrow> matchArrays (allocated3 bankIn bookIn st) a = matchArrays st a"
  "txArrays (allocated3 bankIn bookIn st) (fresh st) = txArrays st bankIn"
  "bookIn \<noteq> fresh st \<Longrightarrow> txArrays (allocated3 bankIn bookIn st) (Suc (fresh st)) = txArrays st bookIn"
  "matchArrays (allocated3 bankIn bookIn st) (Suc (Suc (fresh st))) = []"
  by (simp_all add: allocated3_def newTxArray_def newMatchArray_def)

lemma matchTransactions_store_unfold:
  "matchTransactions_store bankIn bookIn s st =
     ((Suc (Suc (fresh st)), fresh st, Suc (fresh st)),
      (let st3 = allocated3 bankIn bookIn st;
           st4 = (if autoMatchExact s
                  then findExactMatches_store (fresh st) (Suc (fresh st)) (Suc (Suc (fresh st))) st3 else st3)
       in (if fuzzyMatching s
           then findFuzzyMatches_store (fresh st) (Suc (fresh st)) (Suc (Suc (fresh st))) s st4 else st4)))"
  by (simp add: matchTransactions_store_def allocated3_def newTxArray_def newMatchArray_def Let_def)

lemma matchTransactions_store_frame:
  "frameInv (fresh st) (Suc (fresh st)) (Suc (Suc (fresh st)))
     (allocated3 bankIn bookIn st) (snd (matchTransactions_store bankIn bookIn s st))"
proof -
  let ?b = "fresh st" and ?k = "Suc (fresh st)" and ?m = "Suc (Suc (fresh st))"
  let ?st3 = "allocated3 bankIn bookIn st"
  let ?st4 = "if autoMatchExact s then findExactMatches_store ?b ?k ?m ?st3 else ?st3"
  let ?st5 = "if fuzzyMatching s then findFuzzyMatches_store ?b ?k ?m s ?st4 else ?st4"
  have 1: "frameInv ?b ?k ?m ?st3 ?st4"
    by (simp add: findExactMatches_store_def exactLoop_store_frame frameInv_refl)
  have 2: "frameInv ?b ?k ?m ?st4 ?st5"
    by (simp add: findFuzzyMatches_store_def fuzzyLoop_store_frame frameInv_refl)
  have "snd (matchTransactions_store bankIn bookIn s st) = ?st5"
    by (simp add: matchTransactions_store_unfold Let_def)
  with frameInv_trans[OF 1 2] show ?thesis by simp
qed

lemma matchTransactions_store_refs:
  assumes "bookIn \<noteq> fresh st"
  shows "refsInv (fresh st) (Suc (fresh st)) (Suc (Suc (fresh st)))
           (set (txArrays st bankIn)) (set (txArrays st bookIn))
           (snd (matchTransactions_store bankIn bookIn s st))"
proof -
  let ?b = "fresh st" and ?k = "Suc (fresh st)" and ?m = "Suc (Suc (fresh st))"
  let ?B = "set (txArrays st bankIn)" and ?K = "set (txArrays st bookIn)"
  let ?st3 = "allocated3 bankIn bookIn st"
  let ?st4 = "if autoMatchExact s then findExactMatches_store ?b ?k ?m ?st3 else ?st3"
  let ?st5 = "if fuzzyMatching s then findFuzzyMatches_store ?b ?k ?m s ?st4 else ?st4"
  have ne: "?b \<noteq> ?k" by simp
  have 0: "refsInv ?b ?k ?m ?B ?K ?st3"
    using assms by (simp add: refsInv_def allocated3_simps)
  have 1: "refsInv ?b ?k ?m ?B ?K ?st4"
    using exactLoop_store_refs[OF 0 ne order_refl] 0 by (simp add: findExactMatches_store_def)
  have 2: "refsInv ?b ?k ?m ?B ?K ?st5"
    using fuzzyLoop_store_refs[OF 1 ne order_refl, of s] 1 by (simp add: findFuzzyMatches_store_def)
  have "snd (matchTransactions_store bankIn bookIn s st) = ?st5"
    by (simp add: matchTransactions_store_unfold Let_def)
  with 2 show ?thesis by simp
qed

lemma matchTransactions_store_unchanged:
  "txObjects (snd (matchTransactions_store bankIn bookIn s st)) = txObjects st \<and>
   dataObjects (snd (matchTransactions_store bankIn bookIn s st)) = dataObjects st \<and>
   (\<forall>a < fresh st. txArrays (snd (matchTransactions_store bankIn bookIn s st)) a = txArrays st a \<and>
                    matchArrays (snd (matchTransactions_store bankIn bookIn s st)) a = matchArrays st a)"
  using matchTransactions_store_frame[of st bankIn bookIn s]
  by (simp add: frameInv_def allocated3_simps)

lemma processReconciliation_store_unfold:
  "snd (processReconciliation_store dataRef st) =
     snd (matchTransactions_store (bankTransactionsArr (dataObjects st dataRef))
            (bookTransactionsArr (dataObjects st dataRef)) (mergeSettings (settingsVal (dataObjects st dataRef))) st) \<and>
   matchedArr (fst (processReconciliation_store dataRef st)) = Suc (Suc (fresh st)) \<and>
   unmatchedBankArr (fst (processReconciliation_store dataRef st)) = fresh st \<and>
   unmatchedBookArr (fst (processReconciliation_store dataRef st)) = Suc (fresh st)"
  by (simp add: processReconciliation_store_def matchTransactions_store_unfold Let_def)

lemma findIndex_map: "findIndex p (map f xs) = findIndex (\<lambda>x. p (f x)) xs"
  by (induction xs) simp_all

lemma map_splice1: "map f (splice1 i xs) = splice1 i (map f xs)"
  by (simp add: splice1_def take_map drop_map)

lemma derefMatch_cong: "txObjects st' = txObjects st \<Longrightarrow> derefMatch st' = derefMatch st"
  by (rule ext) (simp add: derefMatch_def)

lemma removal_simulates:
  assumes "bankA \<noteq> bookA"
  shows "simulates bankA bookA matchedA
           (spliceTx bookA j (spliceTx bankA i
              (pushMatch matchedA \<lparr>bankTransactionRef = r1, bookTransactionRef = r2,
                                    confidenceVal = c, matchMethodVal = meth\<rparr> st)))
           (splice1 i (map (txObjects st) (txArrays st bankA)),
            splice1 j (map (txObjects st) (txArrays st bookA)),
            map (derefMatch st) (matchArrays st matchedA) @
              [\<lparr>bankTransaction = txObjects st r1, bookTransaction = txObjects st r2,
                confidence = c, matchMethod = meth\<rparr>])"
proof -
  let ?st' = "spliceTx bookA j (spliceTx bankA i
              (pushMatch matchedA \<lparr>bankTransactionRef = r1, bookTransactionRef = r2,
                                    confidenceVal = c, matchMethodVal = meth\<rparr> st))"
  have o: "txObjects ?st' = txObjects st" by (simp add: spliceTx_def pushMatch_def)
  have d: "derefMatch ?st' = derefMatch st" by (rule derefMatch_cong[OF o])
  have a: "txArrays ?st' bankA = splice1 i (txArrays st bankA)"
    using assms by (simp add: spliceTx_def pushMatch_def)
  have b: "txArrays ?st' bookA = splice1 j (txArrays st bookA)"
    using assms by (simp add: spliceTx_def pushMatch_def)
  have m: "matchArrays ?st' matchedA = matchArrays st matchedA @
             [\<lparr>bankTransactionRef = r1, bookTransactionRef = r2, confidenceVal = c, matchMethodVal = meth\<rparr>]"
    by (simp add: spliceTx_def pushMatch_def)
  show ?thesis
    unfolding simulates_def o d a b m by (simp add: map_splice1 derefMatch_def)
qed

lemma exactBody_simulates:
  assumes "simulates bankA bookA matchedA st pst" "bankA \<noteq> bookA" "i < length (txArrays st bankA)"
  shows "simulates bankA bookA matchedA (exactBody_store bankA bookA matchedA i st) (exactBody i pst)"
proof -
  let ?bank = "txArrays st bankA" and ?book = "txArrays st bookA"
  have pst: "pst = (map (txObjects st) ?bank, map (txObjects st) ?book,
                    map (derefMatch st) (matchArrays st matchedA))"
    using assms(1) by (simp add: simulates_def)
  have bi: "map (txObjects st) ?bank ! i = txObjects st (?bank ! i)" using assms(3) by simp
  let ?fi = "findIndex (\<lambda>bookTx. exactPredicate (txObjects st (?bank ! i)) (txObjects st bookTx)) ?book"
  have fi: "findIndex (exactPredicate (txObjects st (?bank ! i))) (map (txObjects st) ?book) = ?fi"
    by (rule findIndex_map)
  show ?thesis
  proof (cases ?fi)
    case None
    then show ?thesis using assms(1) pst bi fi by (simp add: exactBody_store_def exactBody_def Let_def)
  next
    case (Some j)
    from findIndex_Some[OF Some] have j: "j < length ?book" by simp
    then have bj: "map (txObjects st) ?book ! j = txObjects st (?book ! j)" by simp
    have 1: "exactBody_store bankA bookA matchedA i st =
               spliceTx bookA j (spliceTx bankA i
                 (pushMatch matchedA \<lparr>bankTransactionRef = ?bank ! i, bookTransactionRef = ?book ! j,
                                       confidenceVal = Fin 1, matchMethodVal = exact\<rparr> st))"
      using Some by (simp add: exactBody_store_def Let_def)
    have 2: "exactBody i pst =
               (splice1 i (map (txObjects st) ?bank), splice1 j (map (txObjects st) ?book),
                map (derefMatch st) (matchArrays st matchedA) @
                  [\<lparr>bankTransaction = txObjects st (?bank ! i), bookTransaction = txObjects st (?book ! j),
                    confidence = Fin 1, matchMethod = exact\<rparr>])"
      using Some fi bi bj by (simp add: pst exactBody_def Let_def)
    show ?thesis unfolding 1 2 by (rule removal_simulates[OF assms(2)])
  qed
qed

lemma fuzzyBody_simulates:
  assumes "simulates bankA bookA matchedA st pst" "bankA \<noteq> bookA" "i < length (txArrays st bankA)"
  shows "simulates bankA bookA matchedA (fuzzyBody_store s bankA bookA matchedA i st) (fuzzyBody s i pst)"
proof -
  let ?bank = "txArrays st bankA" and ?book = "txArrays st bookA"
  have pst: "pst = (map (txObjects st) ?bank, map (txObjects st) ?book,
                    map (derefMatch st) (matchArrays st matchedA))"
    using assms(1) by (simp add: simulates_def)
  have bi: "map (txObjects st) ?bank ! i = txObjects st (?bank ! i)" using assms(3) by simp
  let ?sc = "scanBook (txObjects st (?bank ! i)) (map (txObjects st) ?book) s 0 None"
  show ?thesis
  proof (cases ?sc)
    case None
    then show ?thesis using assms(1) pst bi by (simp add: fuzzyBody_store_def fuzzyBody_def Let_def)
  next
    case (Some b)
    from scanBook_index[OF Some] have j: "fst b < length ?book" by simp
    then have bj: "map (txObjects st) ?book ! fst b = txObjects st (?book ! fst b)" by simp
    have 1: "fuzzyBody_store s bankA bookA matchedA i st =
               spliceTx bookA (fst b) (spliceTx bankA i
                 (pushMatch matchedA \<lparr>bankTransactionRef = ?bank ! i, bookTransactionRef = ?book ! fst b,
                                       confidenceVal = snd b, matchMethodVal = fuzzy\<rparr> st))"
      using Some by (simp add: fuzzyBody_store_def Let_def)
    have 2: "fuzzyBody s i pst =
               (splice1 i (map (txObjects st) ?bank), splice1 (fst b) (map (txObjects st) ?book),
                map (derefMatch st) (matchArrays st matchedA) @
                  [\<lparr>bankTransaction = txObjects st (?bank ! i), bookTransaction = txObjects st (?book ! fst b),
                    confidence = snd b, matchMethod = fuzzy\<rparr>])"
      using Some bi bj by (simp add: pst fuzzyBody_def Let_def)
    show ?thesis unfolding 1 2 by (rule removal_simulates[OF assms(2)])
  qed
qed

lemma simulates_length: "simulates bankA bookA matchedA st pst \<Longrightarrow> length (fst pst) = length (txArrays st bankA)"
  by (simp add: simulates_def)

lemma exactLoop_simulates:
  "simulates bankA bookA matchedA st pst \<Longrightarrow> bankA \<noteq> bookA \<Longrightarrow> n \<le> length (txArrays st bankA) \<Longrightarrow>
   simulates bankA bookA matchedA (exactLoop_store bankA bookA matchedA n st) (exactLoop n pst)"
proof (induction n arbitrary: st pst)
  case 0 then show ?case by simp
next
  case (Suc n)
  have lt: "n < length (txArrays st bankA)" using Suc.prems(3) by simp
  have s': "simulates bankA bookA matchedA (exactBody_store bankA bookA matchedA n st) (exactBody n pst)"
    by (rule exactBody_simulates[OF Suc.prems(1,2) lt])
  have "n < length (fst pst)" using lt simulates_length[OF Suc.prems(1)] by simp
  from removalStep_length[OF exactBody_removal this]
  have "n \<le> length (txArrays (exactBody_store bankA bookA matchedA n st) bankA)"
    using simulates_length[OF s'] by simp
  from Suc.IH[OF s' Suc.prems(2) this] show ?case by simp
qed

lemma fuzzyLoop_simulates:
  "simulates bankA bookA matchedA st pst \<Longrightarrow> bankA \<noteq> bookA \<Longrightarrow> n \<le> length (txArrays st bankA) \<Longrightarrow>
   simulates bankA bookA matchedA (fuzzyLoop_store s bankA bookA matchedA n st) (fuzzyLoop s n pst)"
proof (induction n arbitrary: st pst)
  case 0 then show ?case by simp
next
  case (Suc n)
  have lt: "n < length (txArrays st bankA)" using Suc.prems(3) by simp
  have s': "simulates bankA bookA matchedA (fuzzyBody_store s bankA bookA matchedA n st) (fuzzyBody s n pst)"
    by (rule fuzzyBody_simulates[OF Suc.prems(1,2) lt])
  have "n < length (fst pst)" using lt simulates_length[OF Suc.prems(1)] by simp
  from removalStep_length[OF fuzzyBody_removal[of n pst s] this]
  have "n \<le> length (txArrays (fuzzyBody_store s bankA bookA matchedA n st) bankA)"
    using simulates_length[OF s'] by simp
  from Suc.IH[OF s' Suc.prems(2) this] show ?case by simp
qed

lemma matchTransactions_store_simulates:
  assumes "bookIn \<noteq> fresh st"
  shows "simulates (fresh st) (Suc (fresh st)) (Suc (Suc (fresh st)))
           (snd (matchTransactions_store bankIn bookIn s st))
           (unmatchedBank (matchTransactions (map (txObjects st) (txArrays st bankIn))
                                              (map (txObjects st) (txArrays st bookIn)) s),
            unmatchedBook (matchTransactions (map (txObjects st) (txArrays st bankIn))
                                              (map (txObjects st) (txArrays st bookIn)) s),
            matched (matchTransactions (map (txObjects st) (txArrays st bankIn))
                                        (map (txObjects st) (txArrays st bookIn)) s))"
proof -
  let ?b = "fresh st" and ?k = "Suc (fresh st)" and ?m = "Suc (Suc (fresh st))"
  let ?st3 = "allocated3 bankIn bookIn st"
  let ?st4 = "if autoMatchExact s then findExactMatches_store ?b ?k ?m ?st3 else ?st3"
  let ?st5 = "if fuzzyMatching s then findFuzzyMatches_store ?b ?k ?m s ?st4 else ?st4"
  let ?p0 = "(map (txObjects st) (txArrays st bankIn), map (txObjects st) (txArrays st bookIn), [])"
  let ?p1 = "if autoMatchExact s then findExactMatches ?p0 else ?p0"
  let ?p2 = "if fuzzyMatching s then findFuzzyMatches ?p1 s else ?p1"
  have ne: "?b \<noteq> ?k" by simp
  have 0: "simulates ?b ?k ?m ?st3 ?p0"
    using assms by (simp add: simulates_def allocated3_simps)
  have 1: "simulates ?b ?k ?m ?st4 ?p1"
    using exactLoop_simulates[OF 0 ne order_refl] 0 simulates_length[OF 0]
    by (simp add: findExactMatches_store_def findExactMatches_def)
  have 2: "simulates ?b ?k ?m ?st5 ?p2"
    using fuzzyLoop_simulates[OF 1 ne order_refl, of s] 1 simulates_length[OF 1]
    by (simp add: findFuzzyMatches_store_def findFuzzyMatches_def)
  have e: "snd (matchTransactions_store bankIn bookIn s st) = ?st5"
    by (simp add: matchTransactions_store_unfold Let_def)
  obtain x y z where xyz: "?p2 = (x, y, z)" by (cases ?p2)
  then have "matchTransactions (map (txObjects st) (txArrays st bankIn))
               (map (txObjects st) (txArrays st bookIn)) s
             = \<lparr>matched = z, unmatchedBank = x, unmatchedBook = y\<rparr>"
    by (simp add: matchTransactions_def Let_def)
  with 2 e xyz show ?thesis by simp
qed

lemma processReconciliation_store_refines:
  assumes "bookTransactionsArr (dataObjects st dataRef) \<noteq> fresh st"
  shows "map (derefMatch (snd (processReconciliation_store dataRef st)))
           (matchArrays (snd (processReconciliation_store dataRef st))
              (matchedArr (fst (processReconciliation_store dataRef st)))) =
         matched (processReconciliation
           \<lparr>account = accountVal (dataObjects st dataRef), period = periodVal (dataObjects st dataRef),
            bankTransactions = map (txObjects st) (txArrays st (bankTransactionsArr (dataObjects st dataRef))),
            bookTransactions = map (txObjects st) (txArrays st (bookTransactionsArr (dataObjects st dataRef))),
            settings = settingsVal (dataObjects st dataRef), matchResults = None\<rparr>) \<and>
         map (txObjects (snd (processReconciliation_store dataRef st)))
           (txArrays (snd (processReconciliation_store dataRef st))
              (unmatchedBankArr (fst (processReconciliation_store dataRef st)))) =
         unmatchedBank (processReconciliation
           \<lparr>account = accountVal (dataObjects st dataRef), period = periodVal (dataObjects st dataRef),
            bankTransactions = map (txObjects st) (txArrays st (bankTransactionsArr (dataObjects st dataRef))),
            bookTransactions = map (txObjects st) (txArrays st (bookTransactionsArr (dataObjects st dataRef))),
            settings = settingsVal (dataObjects st dataRef), matchResults = None\<rparr>) \<and>
         map (txObjects (snd (processReconciliation_store dataRef st)))
           (txArrays (snd (processReconciliation_store dataRef st))
              (unmatchedBookArr (fst (processReconciliation_store dataRef st)))) =
         unmatchedBook (processReconciliation
           \<lparr>account = accountVal (dataObjects st dataRef), period = periodVal (dataObjects st dataRef),
            bankTransactions = map (txObjects st) (txArrays st (bankTransactionsArr (dataObjects st dataRef))),
            bookTransactions = map (txObjects st) (txArrays st (bookTransactionsArr (dataObjects st dataRef))),
            settings = settingsVal (dataObjects st dataRef), matchResults = None\<rparr>) \<and>
         summaryVal (fst (processReconciliation_store dataRef st)) =
         summary (processReconciliation
           \<lparr>account = accountVal (dataObjects st dataRef), period = periodVal (dataObjects st dataRef),
            bankTransactions = map (txObjects st) (txArrays st (bankTransactionsArr (dataObjects st dataRef))),
            bookTransactions = map (txObjects st) (txArrays st (bookTransactionsArr (dataObjects st dataRef))),
            settings = settingsVal (dataObjects st dataRef), matchResults = None\<rparr>)"
proof -
  let ?d = "dataObjects st dataRef"
  let ?s = "mergeSettings (settingsVal ?d)"
  let ?st' = "snd (matchTransactions_store (bankTransactionsArr ?d) (bookTransactionsArr ?d) ?s st)"
  let ?r = "matchTransactions (map (txObjects st) (txArrays st (bankTransactionsArr ?d)))
              (map (txObjects st) (txArrays st (bookTransactionsArr ?d))) ?s"
  from matchTransactions_store_simulates[OF assms, of "bankTransactionsArr ?d" ?s]
  have sim: "map (txObjects ?st') (txArrays ?st' (fresh st)) = unmatchedBank ?r"
    "map (txObjects ?st') (txArrays ?st' (Suc (fresh st))) = unmatchedBook ?r"
    "map (derefMatch ?st') (matchArrays ?st' (Suc (Suc (fresh st)))) = matched ?r"
    by (simp_all add: simulates_def)
  have d': "dataObjects ?st' = dataObjects st"
    using matchTransactions_store_unchanged[of "bankTransactionsArr ?d" "bookTransactionsArr ?d" ?s st] by simp
  have st': "snd (processReconciliation_store dataRef st) = ?st'"
    using processReconciliation_store_unfold[of dataRef st] by simp
  have summ: "summaryVal (fst (processReconciliation_store dataRef st)) =
     calculateReconciliationSummary (accountVal ?d) (matched ?r) (unmatchedBank ?r) (unmatchedBook ?r)"
    using sim d' by (simp add: processReconciliation_store_def matchTransactions_store_unfold Let_def)
  show ?thesis
    using sim st' summ processReconciliation_store_unfold[of dataRef st]
    by (simp add: processReconciliation_def Let_def)
qed

lemma sampleStore_run:
  "matchArrays (snd (processReconciliation_store 0 sampleStore))
     (matchedArr (fst (processReconciliation_store 0 sampleStore)))
     = [\<lparr>bankTransactionRef = 0, bookTransactionRef = 1, confidenceVal = Fin (8 / 9), matchMethodVal = fuzzy\<rparr>] \<and>
   txArrays (snd (processReconciliation_store 0 sampleStore))
     (unmatchedBankArr (fst (processReconciliation_store 0 sampleStore))) = [] \<and>
   txArrays (snd (processReconciliation_store 0 sampleStore))
     (unmatchedBookArr (fst (processReconciliation_store 0 sampleStore))) = []"
  by code_simp


section \<open>The claims\<close>

text \<open>
  Claim C1 (partition). For all input lists and settings, the bank transactions of the
  matched pairs together with \<open>unmatchedBank\<close> are, as a multiset, exactly the input
  bank transactions, and likewise on the book side: every input transaction occurs in the
  output as often as in the input. When the input transactions are pairwise different, no
  transaction occurs in two pairs, nor in a pair and in the unmatched list.
\<close>

theorem matchTransactions_partition:
  "mset (map bankTransaction (matched (matchTransactions bankTxs bookTxs s)))
     + mset (unmatchedBank (matchTransactions bankTxs bookTxs s)) = mset bankTxs \<and>
   mset (map bookTransaction (matched (matchTransactions bankTxs bookTxs s)))
     + mset (unmatchedBook (matchTransactions bankTxs bookTxs s)) = mset bookTxs \<and>
   (distinct bankTxs \<longrightarrow>
      distinct (map bankTransaction (matched (matchTransactions bankTxs bookTxs s))
                @ unmatchedBank (matchTransactions bankTxs bookTxs s))) \<and>
   (distinct bookTxs \<longrightarrow>
      distinct (map bookTransaction (matched (matchTransactions bankTxs bookTxs s))
                @ unmatchedBook (matchTransactions bankTxs bookTxs s)))"
proof -
  let ?r = "matchTransactions bankTxs bookTxs s"
  have inv: "partitionInv bankTxs bookTxs (unmatchedBank ?r, unmatchedBook ?r, matched ?r)"
    by (rule matchTransactions_inv)
  then have a: "mset (map bankTransaction (matched ?r)) + mset (unmatchedBank ?r) = mset bankTxs"
    and b: "mset (map bookTransaction (matched ?r)) + mset (unmatchedBook ?r) = mset bookTxs"
    by (simp_all add: partitionInv_def)
  from a have "mset (map bankTransaction (matched ?r) @ unmatchedBank ?r) = mset bankTxs" by simp
  then have c: "distinct bankTxs \<longrightarrow> distinct (map bankTransaction (matched ?r) @ unmatchedBank ?r)"
    by (metis mset_eq_imp_distinct_iff)
  from b have "mset (map bookTransaction (matched ?r) @ unmatchedBook ?r) = mset bookTxs" by simp
  then have d: "distinct bookTxs \<longrightarrow> distinct (map bookTransaction (matched ?r) @ unmatchedBook ?r)"
    by (metis mset_eq_imp_distinct_iff)
  from a b c d show ?thesis by blast
qed

theorem matchTransactions_partition_witness:
  "distinct [sampleTx ''b1'' 0 ''Rent'' 100 None, sampleTx ''b2'' 0 ''Fuel'' 40 None] \<and>
   distinct [sampleTx ''k1'' 86400000 ''Rent'' 100 None, sampleTx ''k2'' 0 ''Books'' 15 None] \<and>
   matched (matchTransactions
      [sampleTx ''b1'' 0 ''Rent'' 100 None, sampleTx ''b2'' 0 ''Fuel'' 40 None]
      [sampleTx ''k1'' 86400000 ''Rent'' 100 None, sampleTx ''k2'' 0 ''Books'' 15 None] defaultSettings) \<noteq> [] \<and>
   distinct (map bankTransaction (matched (matchTransactions
      [sampleTx ''b1'' 0 ''Rent'' 100 None, sampleTx ''b2'' 0 ''Fuel'' 40 None]
      [sampleTx ''k1'' 86400000 ''Rent'' 100 None, sampleTx ''k2'' 0 ''Books'' 15 None] defaultSettings))
     @ unmatchedBank (matchTransactions
      [sampleTx ''b1'' 0 ''Rent'' 100 None, sampleTx ''b2'' 0 ''Fuel'' 40 None]
      [sampleTx ''k1'' 86400000 ''Rent'' 100 None, sampleTx ''k2'' 0 ''Books'' 15 None] defaultSettings)) \<and>
   distinct (map bookTransaction (matched (matchTransactions
      [sampleTx ''b1'' 0 ''Rent'' 100 None, sampleTx ''b2'' 0 ''Fuel'' 40 None]
      [sampleTx ''k1'' 86400000 ''Rent'' 100 None, sampleTx ''k2'' 0 ''Books'' 15 None] defaultSettings))
     @ unmatchedBook (matchTransactions
      [sampleTx ''b1'' 0 ''Rent'' 100 None, sampleTx ''b2'' 0 ''Fuel'' 40 None]
      [sampleTx ''k1'' 86400000 ''Rent'' 100 None, sampleTx ''k2'' 0 ''Books'' 15 None] defaultSettings))"
proof -
  have d1: "distinct [sampleTx ''b1'' 0 ''Rent'' 100 None, sampleTx ''b2'' 0 ''Fuel'' 40 None]"
    by (simp add: sampleTx_def)
  have d2: "distinct [sampleTx ''k1'' 86400000 ''Rent'' 100 None, sampleTx ''k2'' 0 ''Books'' 15 None]"
    by (simp add: sampleTx_def)
  have ne: "matched (matchTransactions
      [sampleTx ''b1'' 0 ''Rent'' 100 None, sampleTx ''b2'' 0 ''Fuel'' 40 None]
      [sampleTx ''k1'' 86400000 ''Rent'' 100 None, sampleTx ''k2'' 0 ''Books'' 15 None] defaultSettings) \<noteq> []"
    by code_simp
  show ?thesis
    using d1 d2 ne
      matchTransactions_partition[of
        "[sampleTx ''b1'' 0 ''Rent'' 100 None, sampleTx ''b2'' 0 ''Fuel'' 40 None]"
        "[sampleTx ''k1'' 86400000 ''Rent'' 100 None, sampleTx ''k2'' 0 ''Books'' 15 None]" defaultSettings]
    by blast
qed

text \<open>
  Claim C2 (threshold respect). Every pair that \<^verbatim>\<open>matchTransactions\<close> produces with
  method \<open>fuzzy\<close> carries a confidence that is a number, at least the threshold of the
  settings in force and at most 1; for \<^verbatim>\<open>processReconciliation\<close> the settings in force
  are the defaults overridden by the caller's options.
\<close>

theorem fuzzy_confidence_bounds:
  "(\<forall>m \<in> set (matched (matchTransactions bankTxs bookTxs s)).
      matchMethod m = fuzzy \<longrightarrow> (\<exists>c. confidence m = Fin c \<and> fuzzyThreshold s \<le> c \<and> c \<le> 1)) \<and>
   (\<forall>m \<in> set (matched (processReconciliation data)).
      matchMethod m = fuzzy \<longrightarrow>
        (\<exists>c. confidence m = Fin c \<and> fuzzyThreshold (mergeSettings (settings data)) \<le> c \<and> c \<le> 1))"
proof -
  have a: "fuzzyOk (fuzzyThreshold s) (matched (matchTransactions bankTxs bookTxs s))"
    by (rule matchTransactions_fuzzyOk)
  have b: "fuzzyOk (fuzzyThreshold (mergeSettings (settings data)))
             (matched (matchTransactions (bankTransactions data) (bookTransactions data)
                        (mergeSettings (settings data))))"
    by (rule matchTransactions_fuzzyOk)
  have "matched (processReconciliation data) =
        matched (matchTransactions (bankTransactions data) (bookTransactions data) (mergeSettings (settings data)))"
    by (simp add: processReconciliation_def Let_def)
  with a b show ?thesis by (simp add: fuzzyOk_def)
qed

text \<open>A run that produces a fuzzy pair: same amount and description, dates one day apart.\<close>

theorem fuzzy_confidence_bounds_witness:
  "matched (matchTransactions [sampleTx ''b1'' 0 ''Rent'' 100 None]
      [sampleTx ''k1'' 86400000 ''Rent'' 100 None] defaultSettings)
    = [\<lparr>bankTransaction = sampleTx ''b1'' 0 ''Rent'' 100 None,
        bookTransaction = sampleTx ''k1'' 86400000 ''Rent'' 100 None,
        confidence = Fin (8 / 9), matchMethod = fuzzy\<rparr>] \<and>
   (\<exists>c. Fin (8 / 9) = Fin c \<and> fuzzyThreshold defaultSettings \<le> c \<and> c \<le> 1)"
proof -
  have e: "matched (matchTransactions [sampleTx ''b1'' 0 ''Rent'' 100 None]
      [sampleTx ''k1'' 86400000 ''Rent'' 100 None] defaultSettings)
    = [\<lparr>bankTransaction = sampleTx ''b1'' 0 ''Rent'' 100 None,
        bookTransaction = sampleTx ''k1'' 86400000 ''Rent'' 100 None,
        confidence = Fin (8 / 9), matchMethod = fuzzy\<rparr>]"
    by code_simp
  show ?thesis
    using e fuzzy_confidence_bounds[of "[sampleTx ''b1'' 0 ''Rent'' 100 None]"
       "[sampleTx ''k1'' 86400000 ''Rent'' 100 None]" defaultSettings]
    by simp
qed

text \<open>
  Claim C3, amended (exact-match priority). With \<open>autoMatchExact\<close> on, if a bank
  transaction \<open>b\<close> and a book transaction \<open>k\<close> of the input agree on amount, date and
  reference, then the first pass matches at least one of them, with confidence 1 and method
  \<open>exact\<close>, to a counterpart that agrees with it on the three fields; and when no other
  bank transaction agrees with \<open>k\<close> and no other book transaction agrees with \<open>b\<close>,
  the pair \<open>(b, k)\<close> itself is matched so. This holds whether or not the fuzzy pass is
  enabled.
\<close>

theorem exact_match_priority:
  assumes "autoMatchExact s" "b \<in> set bankTxs" "k \<in> set bookTxs" "exactPredicate b k"
  shows "(\<exists>m \<in> set (matched (matchTransactions bankTxs bookTxs s)).
            confidence m = Fin 1 \<and> matchMethod m = exact \<and>
            exactPredicate (bankTransaction m) (bookTransaction m) \<and>
            (bankTransaction m = b \<or> bookTransaction m = k)) \<and>
         ((\<forall>b' \<in> set bankTxs. exactPredicate b' k \<longrightarrow> b' = b) \<and>
          (\<forall>k' \<in> set bookTxs. exactPredicate b k' \<longrightarrow> k' = k) \<longrightarrow>
            \<lparr>bankTransaction = b, bookTransaction = k, confidence = Fin 1, matchMethod = exact\<rparr>
              \<in> set (matched (matchTransactions bankTxs bookTxs s)))"
proof -
  let ?st1 = "findExactMatches (bankTxs, bookTxs, [])"
  from phase1_facts[OF assms(2,3,4)] obtain m where
    m: "m \<in> set (snd (snd ?st1))" "confidence m = Fin 1" "matchMethod m = exact"
       "exactPredicate (bankTransaction m) (bookTransaction m)"
       "bankTransaction m \<in> set bankTxs" "bookTransaction m \<in> set bookTxs"
       "bankTransaction m = b \<or> bookTransaction m = k"
    by blast
  have sub: "set (snd (snd ?st1)) \<subseteq> set (matched (matchTransactions bankTxs bookTxs s))"
    unfolding matched_matchTransactions using assms(1) fuzzyLoop_matched[of ?st1 s]
    by (simp add: findFuzzyMatches_def)
  then have in_final: "m \<in> set (matched (matchTransactions bankTxs bookTxs s))" using m(1) by blast
  have first: "\<exists>m \<in> set (matched (matchTransactions bankTxs bookTxs s)).
            confidence m = Fin 1 \<and> matchMethod m = exact \<and>
            exactPredicate (bankTransaction m) (bookTransaction m) \<and>
            (bankTransaction m = b \<or> bookTransaction m = k)"
    using in_final m by blast
  have second: "\<lparr>bankTransaction = b, bookTransaction = k, confidence = Fin 1, matchMethod = exact\<rparr>
              \<in> set (matched (matchTransactions bankTxs bookTxs s))"
    if u1: "\<forall>b' \<in> set bankTxs. exactPredicate b' k \<longrightarrow> b' = b"
    and u2: "\<forall>k' \<in> set bookTxs. exactPredicate b k' \<longrightarrow> k' = k"
  proof -
    have "bankTransaction m = b \<and> bookTransaction m = k"
    proof (rule disjE[OF m(7)])
      assume e: "bankTransaction m = b"
      with m(4) have "exactPredicate b (bookTransaction m)" by simp
      with u2 m(6) have "bookTransaction m = k" by blast
      with e show ?thesis by simp
    next
      assume e: "bookTransaction m = k"
      with m(4) have "exactPredicate (bankTransaction m) k" by simp
      with u1 m(5) have "bankTransaction m = b" by blast
      with e show ?thesis by simp
    qed
    with m(2,3) have "m = \<lparr>bankTransaction = b, bookTransaction = k, confidence = Fin 1, matchMethod = exact\<rparr>"
      by (cases m) simp
    with in_final show ?thesis by simp
  qed
  from first second show ?thesis by blast
qed

text \<open>An instance with the fuzzy pass enabled and a second, unrelated transaction on each side.\<close>

theorem exact_match_priority_witness:
  "autoMatchExact defaultSettings \<and> fuzzyMatching defaultSettings \<and>
   exactPredicate (sampleTx ''b1'' 0 ''Rent'' 100 (Some ''REF1'')) (sampleTx ''k1'' 0 ''Rent paid'' 100 (Some ''REF1'')) \<and>
   \<lparr>bankTransaction = sampleTx ''b1'' 0 ''Rent'' 100 (Some ''REF1''),
    bookTransaction = sampleTx ''k1'' 0 ''Rent paid'' 100 (Some ''REF1''),
    confidence = Fin 1, matchMethod = exact\<rparr>
     \<in> set (matched (matchTransactions
          [sampleTx ''b0'' 0 ''Fuel'' 40 None, sampleTx ''b1'' 0 ''Rent'' 100 (Some ''REF1'')]
          [sampleTx ''k1'' 0 ''Rent paid'' 100 (Some ''REF1''), sampleTx ''k2'' 0 ''Books'' 15 None]
          defaultSettings))"
proof -
  have 1: "autoMatchExact defaultSettings" "fuzzyMatching defaultSettings"
    by (simp_all add: defaultSettings_def)
  have 2: "exactPredicate (sampleTx ''b1'' 0 ''Rent'' 100 (Some ''REF1''))
             (sampleTx ''k1'' 0 ''Rent paid'' 100 (Some ''REF1''))"
    by (simp add: exactPredicate_def sampleTx_def)
  have 3: "sampleTx ''b1'' 0 ''Rent'' 100 (Some ''REF1'')
             \<in> set [sampleTx ''b0'' 0 ''Fuel'' 40 None, sampleTx ''b1'' 0 ''Rent'' 100 (Some ''REF1'')]"
    by simp
  have 4: "sampleTx ''k1'' 0 ''Rent paid'' 100 (Some ''REF1'')
             \<in> set [sampleTx ''k1'' 0 ''Rent paid'' 100 (Some ''REF1''), sampleTx ''k2'' 0 ''Books'' 15 None]"
    by simp
  have 5: "\<forall>b' \<in> set [sampleTx ''b0'' 0 ''Fuel'' 40 None, sampleTx ''b1'' 0 ''Rent'' 100 (Some ''REF1'')].
             exactPredicate b' (sampleTx ''k1'' 0 ''Rent paid'' 100 (Some ''REF1''))
               \<longrightarrow> b' = sampleTx ''b1'' 0 ''Rent'' 100 (Some ''REF1'')"
    by (simp add: exactPredicate_def sampleTx_def)
  have 6: "\<forall>k' \<in> set [sampleTx ''k1'' 0 ''Rent paid'' 100 (Some ''REF1''), sampleTx ''k2'' 0 ''Books'' 15 None].
             exactPredicate (sampleTx ''b1'' 0 ''Rent'' 100 (Some ''REF1'')) k'
               \<longrightarrow> k' = sampleTx ''k1'' 0 ''Rent paid'' 100 (Some ''REF1'')"
    by (simp add: exactPredicate_def sampleTx_def)
  from exact_match_priority[OF 1(1) 3 4 2, THEN conjunct2, rule_format, OF conjI[OF 5 6]] 1 2
  show ?thesis by simp
qed

text \<open>
  The claim as the specification words it fails when two book transactions agree with the
  same bank transaction: the first one in the book list is taken, and the pair formed with
  the second is not matched.
\<close>

theorem exact_match_priority_counterexample:
  "autoMatchExact defaultSettings \<and>
   exactPredicate (sampleTx ''b1'' 0 ''Rent'' 100 None) (sampleTx ''k2'' 0 ''Rent'' 100 None) \<and>
   sampleTx ''k1'' 0 ''Rent'' 100 None \<noteq> sampleTx ''k2'' 0 ''Rent'' 100 None \<and>
   matched (matchTransactions [sampleTx ''b1'' 0 ''Rent'' 100 None]
      [sampleTx ''k1'' 0 ''Rent'' 100 None, sampleTx ''k2'' 0 ''Rent'' 100 None] defaultSettings)
     = [\<lparr>bankTransaction = sampleTx ''b1'' 0 ''Rent'' 100 None,
         bookTransaction = sampleTx ''k1'' 0 ''Rent'' 100 None,
         confidence = Fin 1, matchMethod = exact\<rparr>] \<and>
   unmatchedBook (matchTransactions [sampleTx ''b1'' 0 ''Rent'' 100 None]
      [sampleTx ''k1'' 0 ''Rent'' 100 None, sampleTx ''k2'' 0 ''Rent'' 100 None] defaultSettings)
     = [sampleTx ''k2'' 0 ''Rent'' 100 None]"
  by (simp add: matchTransactions_def findExactMatches_def findFuzzyMatches_def exactBody_def
      exactPredicate_def sampleTx_def defaultSettings_def splice1_def Let_def)

text \<open>
  Claim C4 (selection in the fuzzy pass). The pass is a sequence of turns, one for each
  index of the remaining bank list, from the highest index down to 0: there are states
  \<open>tr (length bankArr), \<dots>, tr 0\<close>, the first the state the pass starts from, the last
  the state it returns, and from \<open>tr (i + 1)\<close> to \<open>tr i\<close> the bank transaction at index
  \<open>i\<close> is paired with its best candidate among the book transactions remaining at that
  turn or, when none reaches the threshold, left in place. The best candidate reaches the
  threshold, no candidate that reaches the threshold has a higher confidence, and every such
  candidate at a lower index has a strictly lower confidence; it is unique, and it exists
  as soon as one candidate reaches the threshold. The pairs that the pass appends are
  exactly the pairs formed at these turns, and after the pass no remaining bank transaction
  reaches the threshold with a remaining book transaction. With \<open>fuzzyMatching\<close> on,
  the result of \<^verbatim>\<open>matchTransactions\<close> is the result of this pass on the state left by
  the first phase.
\<close>

theorem fuzzy_pass_selects_best:
  "(\<exists>tr new. tr (length bankArr) = (bankArr, bookArr, ms) \<and>
         tr 0 = findFuzzyMatches (bankArr, bookArr, ms) s \<and>
         (\<forall>i<length bankArr. fuzzyTurn s i (tr (Suc i)) (tr i)) \<and>
         snd (snd (findFuzzyMatches (bankArr, bookArr, ms) s)) = ms @ new \<and>
         (\<forall>m\<in>set new. \<exists>i<length bankArr. pairedAt s i (tr (Suc i)) m)) \<and>
   (\<forall>b \<in> set (fst (findFuzzyMatches (bankArr, bookArr, ms) s)).
    \<forall>k \<in> set (fst (snd (findFuzzyMatches (bankArr, bookArr, ms) s))).
      \<not> nge (calculateMatchConfidence b k s) (Fin (fuzzyThreshold s))) \<and>
   (isBestCandidate bankTx bookArr s j \<and> isBestCandidate bankTx bookArr s j' \<longrightarrow> j = j') \<and>
   ((\<exists>k<length bookArr. qualifies bankTx bookArr s k) \<longrightarrow> (\<exists>j. isBestCandidate bankTx bookArr s j)) \<and>
   (fuzzyMatching s \<longrightarrow>
      (unmatchedBank (matchTransactions bankTxs bookTxs s),
       unmatchedBook (matchTransactions bankTxs bookTxs s),
       matched (matchTransactions bankTxs bookTxs s)) =
      findFuzzyMatches (if autoMatchExact s then findExactMatches (bankTxs, bookTxs, [])
                        else (bankTxs, bookTxs, [])) s)"
proof -
  have a: "\<exists>tr new. tr (length bankArr) = (bankArr, bookArr, ms) \<and>
         tr 0 = findFuzzyMatches (bankArr, bookArr, ms) s \<and>
         (\<forall>i<length bankArr. fuzzyTurn s i (tr (Suc i)) (tr i)) \<and>
         snd (snd (findFuzzyMatches (bankArr, bookArr, ms) s)) = ms @ new \<and>
         (\<forall>m\<in>set new. \<exists>i<length bankArr. pairedAt s i (tr (Suc i)) m)"
    using fuzzyLoop_trace[of "length bankArr" "(bankArr, bookArr, ms)" s]
    by (simp add: findFuzzyMatches_def)
  have b: "\<forall>b \<in> set (fst (findFuzzyMatches (bankArr, bookArr, ms) s)).
    \<forall>k \<in> set (fst (snd (findFuzzyMatches (bankArr, bookArr, ms) s))).
      \<not> nge (calculateMatchConfidence b k s) (Fin (fuzzyThreshold s))"
    using findFuzzyMatches_none_left by blast
  have c: "isBestCandidate bankTx bookArr s j \<and> isBestCandidate bankTx bookArr s j' \<longrightarrow> j = j'"
    using isBestCandidate_unique by blast
  have d: "(\<exists>k<length bookArr. qualifies bankTx bookArr s k) \<longrightarrow> (\<exists>j. isBestCandidate bankTx bookArr s j)"
  proof (cases "scanBook bankTx bookArr s 0 None")
    case None
    then show ?thesis by (auto simp: scanBook_None)
  next
    case (Some b)
    from scanBook_Some[OF Some] show ?thesis by blast
  qed
  have e: "fuzzyMatching s \<longrightarrow>
      (unmatchedBank (matchTransactions bankTxs bookTxs s),
       unmatchedBook (matchTransactions bankTxs bookTxs s),
       matched (matchTransactions bankTxs bookTxs s)) =
      findFuzzyMatches (if autoMatchExact s then findExactMatches (bankTxs, bookTxs, [])
                        else (bankTxs, bookTxs, [])) s"
    using matchTransactions_phase2 by blast
  from a b c d e show ?thesis by (intro conjI)
qed

text \<open>
  Three bank and three book transactions. The turn at index 2 takes the second book
  transaction, which ties with the third and has the lower index; the turn at index 1 takes
  the third; at index 0 the only remaining candidate is below the threshold.
\<close>

theorem fuzzy_pass_selects_best_witness:
  "fuzzyMatching defaultSettings \<and>
   (\<exists>tr new.
      tr 3 = ([sampleTx ''b0'' 0 ''Fuel'' 40 None, sampleTx ''b1'' 0 ''Rent'' 100 None,
               sampleTx ''b2'' 0 ''Rent'' 100 None],
              [sampleTx ''k0'' 259200000 ''Rent'' 100 None, sampleTx ''k1'' 86400000 ''Rent'' 100 None,
               sampleTx ''k2'' 86400000 ''Rent'' 100 None], []) \<and>
      tr 0 = ([sampleTx ''b0'' 0 ''Fuel'' 40 None],
              [sampleTx ''k0'' 259200000 ''Rent'' 100 None],
              [\<lparr>bankTransaction = sampleTx ''b2'' 0 ''Rent'' 100 None,
                bookTransaction = sampleTx ''k1'' 86400000 ''Rent'' 100 None,
                confidence = Fin (8 / 9), matchMethod = fuzzy\<rparr>,
               \<lparr>bankTransaction = sampleTx ''b1'' 0 ''Rent'' 100 None,
                bookTransaction = sampleTx ''k2'' 86400000 ''Rent'' 100 None,
                confidence = Fin (8 / 9), matchMethod = fuzzy\<rparr>]) \<and>
      (\<forall>i<3. fuzzyTurn defaultSettings i (tr (Suc i)) (tr i)) \<and>
      [\<lparr>bankTransaction = sampleTx ''b2'' 0 ''Rent'' 100 None,
        bookTransaction = sampleTx ''k1'' 86400000 ''Rent'' 100 None,
        confidence = Fin (8 / 9), matchMethod = fuzzy\<rparr>,
       \<lparr>bankTransaction = sampleTx ''b1'' 0 ''Rent'' 100 None,
        bookTransaction = sampleTx ''k2'' 86400000 ''Rent'' 100 None,
        confidence = Fin (8 / 9), matchMethod = fuzzy\<rparr>] = new \<and>
      (\<forall>m\<in>set new. \<exists>i<3. pairedAt defaultSettings i (tr (Suc i)) m)) \<and>
   \<not> nge (calculateMatchConfidence (sampleTx ''b0'' 0 ''Fuel'' 40 None)
             (sampleTx ''k0'' 259200000 ''Rent'' 100 None) defaultSettings)
          (Fin (fuzzyThreshold defaultSettings))"
proof -
  have f: "fuzzyMatching defaultSettings" by (simp add: defaultSettings_def)
  note t = fuzzy_pass_selects_best[where s=defaultSettings and ms="[]"
      and bankArr="[sampleTx ''b0'' 0 ''Fuel'' 40 None, sampleTx ''b1'' 0 ''Rent'' 100 None,
                    sampleTx ''b2'' 0 ''Rent'' 100 None]"
      and bookArr="[sampleTx ''k0'' 259200000 ''Rent'' 100 None, sampleTx ''k1'' 86400000 ''Rent'' 100 None,
                    sampleTx ''k2'' 86400000 ''Rent'' 100 None]"]
  have len: "length [sampleTx ''b0'' 0 ''Fuel'' 40 None, sampleTx ''b1'' 0 ''Rent'' 100 None,
                    sampleTx ''b2'' 0 ''Rent'' 100 None] = 3" by simp
  from t[THEN conjunct1, unfolded sample_pass len] obtain tr new where
    1: "tr 3 = ([sampleTx ''b0'' 0 ''Fuel'' 40 None, sampleTx ''b1'' 0 ''Rent'' 100 None,
               sampleTx ''b2'' 0 ''Rent'' 100 None],
              [sampleTx ''k0'' 259200000 ''Rent'' 100 None, sampleTx ''k1'' 86400000 ''Rent'' 100 None,
               sampleTx ''k2'' 86400000 ''Rent'' 100 None], [])" and
    2: "tr 0 = ([sampleTx ''b0'' 0 ''Fuel'' 40 None],
              [sampleTx ''k0'' 259200000 ''Rent'' 100 None],
              [\<lparr>bankTransaction = sampleTx ''b2'' 0 ''Rent'' 100 None,
                bookTransaction = sampleTx ''k1'' 86400000 ''Rent'' 100 None,
                confidence = Fin (8 / 9), matchMethod = fuzzy\<rparr>,
               \<lparr>bankTransaction = sampleTx ''b1'' 0 ''Rent'' 100 None,
                bookTransaction = sampleTx ''k2'' 86400000 ''Rent'' 100 None,
                confidence = Fin (8 / 9), matchMethod = fuzzy\<rparr>])" and
    3: "\<forall>i<3. fuzzyTurn defaultSettings i (tr (Suc i)) (tr i)" and
    4: "snd (snd ([sampleTx ''b0'' 0 ''Fuel'' 40 None],
              [sampleTx ''k0'' 259200000 ''Rent'' 100 None],
              [\<lparr>bankTransaction = sampleTx ''b2'' 0 ''Rent'' 100 None,
                bookTransaction = sampleTx ''k1'' 86400000 ''Rent'' 100 None,
                confidence = Fin (8 / 9), matchMethod = fuzzy\<rparr>,
               \<lparr>bankTransaction = sampleTx ''b1'' 0 ''Rent'' 100 None,
                bookTransaction = sampleTx ''k2'' 86400000 ''Rent'' 100 None,
                confidence = Fin (8 / 9), matchMethod = fuzzy\<rparr>])) = [] @ new" and
    5: "\<forall>m\<in>set new. \<exists>i<3. pairedAt defaultSettings i (tr (Suc i)) m"
    by blast
  from 4 have 6: "[\<lparr>bankTransaction = sampleTx ''b2'' 0 ''Rent'' 100 None,
        bookTransaction = sampleTx ''k1'' 86400000 ''Rent'' 100 None,
        confidence = Fin (8 / 9), matchMethod = fuzzy\<rparr>,
       \<lparr>bankTransaction = sampleTx ''b1'' 0 ''Rent'' 100 None,
        bookTransaction = sampleTx ''k2'' 86400000 ''Rent'' 100 None,
        confidence = Fin (8 / 9), matchMethod = fuzzy\<rparr>] = new"
    by (simp only: snd_conv append_Nil)
  have a: "\<exists>tr new.
      tr 3 = ([sampleTx ''b0'' 0 ''Fuel'' 40 None, sampleTx ''b1'' 0 ''Rent'' 100 None,
               sampleTx ''b2'' 0 ''Rent'' 100 None],
              [sampleTx ''k0'' 259200000 ''Rent'' 100 None, sampleTx ''k1'' 86400000 ''Rent'' 100 None,
               sampleTx ''k2'' 86400000 ''Rent'' 100 None], []) \<and>
      tr 0 = ([sampleTx ''b0'' 0 ''Fuel'' 40 None],
              [sampleTx ''k0'' 259200000 ''Rent'' 100 None],
              [\<lparr>bankTransaction = sampleTx ''b2'' 0 ''Rent'' 100 None,
                bookTransaction = sampleTx ''k1'' 86400000 ''Rent'' 100 None,
                confidence = Fin (8 / 9), matchMethod = fuzzy\<rparr>,
               \<lparr>bankTransaction = sampleTx ''b1'' 0 ''Rent'' 100 None,
                bookTransaction = sampleTx ''k2'' 86400000 ''Rent'' 100 None,
                confidence = Fin (8 / 9), matchMethod = fuzzy\<rparr>]) \<and>
      (\<forall>i<3. fuzzyTurn defaultSettings i (tr (Suc i)) (tr i)) \<and>
      [\<lparr>bankTransaction = sampleTx ''b2'' 0 ''Rent'' 100 None,
        bookTransaction = sampleTx ''k1'' 86400000 ''Rent'' 100 None,
        confidence = Fin (8 / 9), matchMethod = fuzzy\<rparr>,
       \<lparr>bankTransaction = sampleTx ''b1'' 0 ''Rent'' 100 None,
        bookTransaction = sampleTx ''k2'' 86400000 ''Rent'' 100 None,
        confidence = Fin (8 / 9), matchMethod = fuzzy\<rparr>] = new \<and>
      (\<forall>m\<in>set new. \<exists>i<3. pairedAt defaultSettings i (tr (Suc i)) m)"
    by (rule exI[of _ tr], rule exI[of _ new]) (intro conjI 1 2 3 5 6)
  from t[THEN conjunct2, THEN conjunct1] have b:
    "\<not> nge (calculateMatchConfidence (sampleTx ''b0'' 0 ''Fuel'' 40 None)
             (sampleTx ''k0'' 259200000 ''Rent'' 100 None) defaultSettings)
          (Fin (fuzzyThreshold defaultSettings))"
    by (simp add: sample_pass)
  from f a b show ?thesis by (intro conjI)
qed

text \<open>
  Claim C5, amended (empty strings). The scorer is total, with values between 0 and 1.
  When at least one of the two strings is empty, one of the first two rules applies: the
  score is 1 when both are empty and 0.8 when exactly one is, because the empty string is
  contained in every string; the token count of the third rule is not reached.
\<close>

theorem calculateStringSimilarity_empty:
  "0 \<le> calculateStringSimilarity str1 str2 \<and> calculateStringSimilarity str1 str2 \<le> 1 \<and>
   (str1 = [] \<or> str2 = [] \<longrightarrow>
      (str1 = str2 \<or> str_includes str1 str2 \<or> str_includes str2 str1) \<and>
      calculateStringSimilarity str1 str2 = (if str1 = str2 then 1 else 0.8))"
  using calculateStringSimilarity_range[of str1 str2] sim_empty[of str1 str2]
  by (auto simp: str_includes_Nil)

theorem calculateStringSimilarity_empty_witness:
  "([] = [] \<or> ''office'' = []) \<and> calculateStringSimilarity [] ''office'' = 0.8 \<and>
   calculateStringSimilarity ''office'' [] = 0.8"
  using calculateStringSimilarity_empty[of "[]" "''office''"]
        calculateStringSimilarity_empty[of "''office''" "[]"]
  by simp

text \<open>
  The specification's wording, that such a pair falls through to the token count and scores
  0, fails: the second rule applies to the empty string and \<open>abc\<close>, the score is 0.8,
  while the token count alone would give 0.
\<close>

theorem calculateStringSimilarity_empty_counterexample:
  "str_includes ''abc'' [] \<and> calculateStringSimilarity [] ''abc'' = 0.8 \<and>
   tokenScore [] ''abc'' = 0 \<and> calculateStringSimilarity [] [] = 1"
  by (simp add: calculateStringSimilarity_def tokenScore_def splitWs_def isSpace_def wordMatches_def Let_def)

text \<open>
  Claim C6 (the office-supplies scenario). With the default settings (tolerance 3,
  threshold 0.7), a bank transaction of amount -350 described \<open>Office Supplies\<close> and a
  book transaction of the same amount, three days later, described
  \<open>Office Supplies Purchase\<close>, neither with a reference, have confidence
  \<open>(0.4 + 0 + 0.2 \<times> 0.8) / 0.9\<close>, which is below the threshold: no pair is produced and
  both transactions stay unmatched. The fields that the scenario leaves open are arbitrary.
\<close>

theorem office_supplies_scenario:
  "calculateMatchConfidence
     \<lparr>tx_id = ''b1'', date = t, description = ''Office Supplies'', amount = - 350, tx_type = ty1,
      category = cat1, reference = None, tx_matched = mt1, matchId = mi1, metadata = md1\<rparr>
     \<lparr>tx_id = ''k1'', date = t + 3 * 86400000, description = ''Office Supplies Purchase'', amount = - 350,
      tx_type = ty2, category = cat2, reference = None, tx_matched = mt2, matchId = mi2, metadata = md2\<rparr>
     (mergeSettings None) = Fin ((0.4 + 0 + 0.2 * 0.8) / 0.9) \<and>
   (0.4 + 0 + 0.2 * 0.8) / 0.9 < fuzzyThreshold (mergeSettings None) \<and>
   dateTolerance (mergeSettings None) = 3 \<and> fuzzyThreshold (mergeSettings None) = 0.7 \<and>
   matched (processReconciliation
     \<lparr>account = acct, period = per,
      bankTransactions = [\<lparr>tx_id = ''b1'', date = t, description = ''Office Supplies'', amount = - 350, tx_type = ty1,
      category = cat1, reference = None, tx_matched = mt1, matchId = mi1, metadata = md1\<rparr>],
      bookTransactions = [\<lparr>tx_id = ''k1'', date = t + 3 * 86400000, description = ''Office Supplies Purchase'', amount = - 350,
      tx_type = ty2, category = cat2, reference = None, tx_matched = mt2, matchId = mi2, metadata = md2\<rparr>],
      settings = None, matchResults = None\<rparr>) = [] \<and>
   unmatchedBank (processReconciliation
     \<lparr>account = acct, period = per,
      bankTransactions = [\<lparr>tx_id = ''b1'', date = t, description = ''Office Supplies'', amount = - 350, tx_type = ty1,
      category = cat1, reference = None, tx_matched = mt1, matchId = mi1, metadata = md1\<rparr>],
      bookTransactions = [\<lparr>tx_id = ''k1'', date = t + 3 * 86400000, description = ''Office Supplies Purchase'', amount = - 350,
      tx_type = ty2, category = cat2, reference = None, tx_matched = mt2, matchId = mi2, metadata = md2\<rparr>],
      settings = None, matchResults = None\<rparr>) =
     [\<lparr>tx_id = ''b1'', date = t, description = ''Office Supplies'', amount = - 350, tx_type = ty1,
      category = cat1, reference = None, tx_matched = mt1, matchId = mi1, metadata = md1\<rparr>] \<and>
   unmatchedBook (processReconciliation
     \<lparr>account = acct, period = per,
      bankTransactions = [\<lparr>tx_id = ''b1'', date = t, description = ''Office Supplies'', amount = - 350, tx_type = ty1,
      category = cat1, reference = None, tx_matched = mt1, matchId = mi1, metadata = md1\<rparr>],
      bookTransactions = [\<lparr>tx_id = ''k1'', date = t + 3 * 86400000, description = ''Office Supplies Purchase'', amount = - 350,
      tx_type = ty2, category = cat2, reference = None, tx_matched = mt2, matchId = mi2, metadata = md2\<rparr>],
      settings = None, matchResults = None\<rparr>) =
     [\<lparr>tx_id = ''k1'', date = t + 3 * 86400000, description = ''Office Supplies Purchase'', amount = - 350,
      tx_type = ty2, category = cat2, reference = None, tx_matched = mt2, matchId = mi2, metadata = md2\<rparr>]"
  by (simp add: processReconciliation_def mergeSettings_def
      matchTransactions_def findExactMatches_def findFuzzyMatches_def exactBody_def fuzzyBody_def
      exactPredicate_def defaultSettings_def scanBook.simps splice1_def
      calculateMatchConfidence_def amountBlock_def dateBlock_def descriptionBlock_def referenceBlock_def
      truthy_def calculateStringSimilarity_def toLowerCase_def toLowerChar_def Let_def)

text \<open>
  Claim C7 (summary). \<open>matchedAmount\<close> is the sum of the bank-side amounts of the pairs,
  the two unmatched amounts are the sums over the unmatched lists, the discrepancy is their
  difference, the status is \<open>balanced\<close> exactly when the absolute discrepancy is below
  0.01 and \<open>unbalanced\<close> otherwise, and the match percentage is the share of pairs in
  the total count times 100, or 100 when that total is 0.
\<close>

theorem calculateReconciliationSummary_fields:
  "matchedAmount (calculateReconciliationSummary acct ms ub uk) = (\<Sum>m\<leftarrow>ms. amount (bankTransaction m)) \<and>
   unmatchedBankAmount (calculateReconciliationSummary acct ms ub uk) = (\<Sum>tx\<leftarrow>ub. amount tx) \<and>
   unmatchedBookAmount (calculateReconciliationSummary acct ms ub uk) = (\<Sum>tx\<leftarrow>uk. amount tx) \<and>
   discrepancy (calculateReconciliationSummary acct ms ub uk) =
     unmatchedBankAmount (calculateReconciliationSummary acct ms ub uk)
       - unmatchedBookAmount (calculateReconciliationSummary acct ms ub uk) \<and>
   (status (calculateReconciliationSummary acct ms ub uk) = balanced \<longleftrightarrow>
      \<bar>discrepancy (calculateReconciliationSummary acct ms ub uk)\<bar> < 0.01) \<and>
   (status (calculateReconciliationSummary acct ms ub uk) = unbalanced \<longleftrightarrow>
      \<not> \<bar>discrepancy (calculateReconciliationSummary acct ms ub uk)\<bar> < 0.01) \<and>
   matchPercentage (calculateReconciliationSummary acct ms ub uk) =
     (if length ms + length ub + length uk = 0 then 100
      else real (length ms) / real (length ms + length ub + length uk) * 100)"
  by (simp add: calculateReconciliationSummary_def Let_def foldl_add)

text \<open>
  A pair whose two sides differ in amount (100 at the bank, 90 in the books): the matched
  amount is the bank's. Unmatched amounts 100 and 40 give the discrepancy 60 and the status
  \<open>unbalanced\<close>; three empty lists give 100 percent and \<open>balanced\<close>.
\<close>

theorem calculateReconciliationSummary_fields_witness:
  "matchedAmount (calculateReconciliationSummary ()
      [\<lparr>bankTransaction = sampleTx ''b1'' 0 ''Rent'' 100 None,
        bookTransaction = sampleTx ''k1'' 86400000 ''Rent'' 90 None,
        confidence = Fin (8 / 9), matchMethod = fuzzy\<rparr>]
      [sampleTx ''b2'' 0 ''Fuel'' 100 None] [sampleTx ''k2'' 0 ''Books'' 40 None]) = 100 \<and>
   discrepancy (calculateReconciliationSummary ()
      [\<lparr>bankTransaction = sampleTx ''b1'' 0 ''Rent'' 100 None,
        bookTransaction = sampleTx ''k1'' 86400000 ''Rent'' 90 None,
        confidence = Fin (8 / 9), matchMethod = fuzzy\<rparr>]
      [sampleTx ''b2'' 0 ''Fuel'' 100 None] [sampleTx ''k2'' 0 ''Books'' 40 None]) = 60 \<and>
   status (calculateReconciliationSummary ()
      [\<lparr>bankTransaction = sampleTx ''b1'' 0 ''Rent'' 100 None,
        bookTransaction = sampleTx ''k1'' 86400000 ''Rent'' 90 None,
        confidence = Fin (8 / 9), matchMethod = fuzzy\<rparr>]
      [sampleTx ''b2'' 0 ''Fuel'' 100 None] [sampleTx ''k2'' 0 ''Books'' 40 None]) = unbalanced \<and>
   matchPercentage (calculateReconciliationSummary ()
      [\<lparr>bankTransaction = sampleTx ''b1'' 0 ''Rent'' 100 None,
        bookTransaction = sampleTx ''k1'' 86400000 ''Rent'' 90 None,
        confidence = Fin (8 / 9), matchMethod = fuzzy\<rparr>]
      [sampleTx ''b2'' 0 ''Fuel'' 100 None] [sampleTx ''k2'' 0 ''Books'' 40 None]) = 100 / 3 \<and>
   matchPercentage (calculateReconciliationSummary () [] [] []) = 100 \<and>
   status (calculateReconciliationSummary () [] [] []) = balanced"
  using calculateReconciliationSummary_fields[of "()"
      "[\<lparr>bankTransaction = sampleTx ''b1'' 0 ''Rent'' 100 None,
        bookTransaction = sampleTx ''k1'' 86400000 ''Rent'' 90 None,
        confidence = Fin (8 / 9), matchMethod = fuzzy\<rparr>]"
      "[sampleTx ''b2'' 0 ''Fuel'' 100 None]" "[sampleTx ''k2'' 0 ''Books'' 40 None]"]
    calculateReconciliationSummary_fields[of "()" "[]" "[]" "[]"]
  by (simp add: sampleTx_def)

text \<open>
  Claim C8 (no mutation of the input). Run \<^verbatim>\<open>processReconciliation\<close> on a data object
  whose two arrays are allocated. Afterwards every transaction object and every data object
  is what it was, every array that existed before the call has its old content, in
  particular the two input arrays, and the references held by the returned arrays
  (the unmatched ones and both sides of every match) are references taken from the input
  arrays: the results point to the caller's objects.
\<close>

theorem processReconciliation_store_frame:
  assumes "bankTransactionsArr (dataObjects st dataRef) < fresh st"
      and "bookTransactionsArr (dataObjects st dataRef) < fresh st"
  shows "txObjects (snd (processReconciliation_store dataRef st)) = txObjects st \<and>
         dataObjects (snd (processReconciliation_store dataRef st)) = dataObjects st \<and>
         (\<forall>a < fresh st.
            txArrays (snd (processReconciliation_store dataRef st)) a = txArrays st a \<and>
            matchArrays (snd (processReconciliation_store dataRef st)) a = matchArrays st a) \<and>
         txArrays (snd (processReconciliation_store dataRef st)) (bankTransactionsArr (dataObjects st dataRef))
           = txArrays st (bankTransactionsArr (dataObjects st dataRef)) \<and>
         txArrays (snd (processReconciliation_store dataRef st)) (bookTransactionsArr (dataObjects st dataRef))
           = txArrays st (bookTransactionsArr (dataObjects st dataRef)) \<and>
         set (txArrays (snd (processReconciliation_store dataRef st))
                (unmatchedBankArr (fst (processReconciliation_store dataRef st))))
           \<subseteq> set (txArrays st (bankTransactionsArr (dataObjects st dataRef))) \<and>
         set (txArrays (snd (processReconciliation_store dataRef st))
                (unmatchedBookArr (fst (processReconciliation_store dataRef st))))
           \<subseteq> set (txArrays st (bookTransactionsArr (dataObjects st dataRef))) \<and>
         (\<forall>m \<in> set (matchArrays (snd (processReconciliation_store dataRef st))
                        (matchedArr (fst (processReconciliation_store dataRef st)))).
            bankTransactionRef m \<in> set (txArrays st (bankTransactionsArr (dataObjects st dataRef))) \<and>
            bookTransactionRef m \<in> set (txArrays st (bookTransactionsArr (dataObjects st dataRef))))"
proof -
  let ?d = "dataObjects st dataRef"
  let ?s = "mergeSettings (settingsVal ?d)"
  let ?st' = "snd (matchTransactions_store (bankTransactionsArr ?d) (bookTransactionsArr ?d) ?s st)"
  note u = processReconciliation_store_unfold[of dataRef st]
  have un: "txObjects ?st' = txObjects st" "dataObjects ?st' = dataObjects st"
    "\<forall>a < fresh st. txArrays ?st' a = txArrays st a \<and> matchArrays ?st' a = matchArrays st a"
    using matchTransactions_store_unchanged[of "bankTransactionsArr ?d" "bookTransactionsArr ?d" ?s st]
    by simp_all
  have "bookTransactionsArr ?d \<noteq> fresh st" using assms(2) by simp
  from matchTransactions_store_refs[OF this, of "bankTransactionsArr ?d" ?s]
  have refs: "set (txArrays ?st' (fresh st)) \<subseteq> set (txArrays st (bankTransactionsArr ?d))"
    "set (txArrays ?st' (Suc (fresh st))) \<subseteq> set (txArrays st (bookTransactionsArr ?d))"
    "\<forall>m \<in> set (matchArrays ?st' (Suc (Suc (fresh st)))).
        bankTransactionRef m \<in> set (txArrays st (bankTransactionsArr ?d)) \<and>
        bookTransactionRef m \<in> set (txArrays st (bookTransactionsArr ?d))"
    by (simp_all add: refsInv_def)
  show ?thesis
    using un refs assms u by simp
qed

text \<open>A store with one bank and one book transaction, which the fuzzy pass pairs.\<close>

theorem processReconciliation_store_frame_witness:
  "bankTransactionsArr (dataObjects sampleStore 0) < fresh sampleStore \<and>
   bookTransactionsArr (dataObjects sampleStore 0) < fresh sampleStore \<and>
   txObjects (snd (processReconciliation_store 0 sampleStore)) = txObjects sampleStore \<and>
   dataObjects (snd (processReconciliation_store 0 sampleStore)) = dataObjects sampleStore \<and>
   txArrays (snd (processReconciliation_store 0 sampleStore)) 0 = [0] \<and>
   txArrays (snd (processReconciliation_store 0 sampleStore)) 1 = [1] \<and>
   matchArrays (snd (processReconciliation_store 0 sampleStore))
     (matchedArr (fst (processReconciliation_store 0 sampleStore)))
     = [\<lparr>bankTransactionRef = 0, bookTransactionRef = 1, confidenceVal = Fin (8 / 9), matchMethodVal = fuzzy\<rparr>]"
proof -
  have h: "bankTransactionsArr (dataObjects sampleStore 0) < fresh sampleStore"
          "bookTransactionsArr (dataObjects sampleStore 0) < fresh sampleStore"
    by (simp_all add: sampleStore_def)
  have a: "txArrays sampleStore (bankTransactionsArr (dataObjects sampleStore 0)) = [0]"
          "txArrays sampleStore (bookTransactionsArr (dataObjects sampleStore 0)) = [1]"
          "bankTransactionsArr (dataObjects sampleStore 0) = 0"
          "bookTransactionsArr (dataObjects sampleStore 0) = 1"
    by (simp_all add: sampleStore_def)
  from processReconciliation_store_frame[OF h] h a sampleStore_run
  show ?thesis by simp
qed

text \<open>
  Claim C9 (the two summaries agree). \<^verbatim>\<open>generateReconciliationSummary\<close> and
  \<^verbatim>\<open>calculateReconciliationSummary\<close> return the same summary on the same three lists,
  whatever the two account arguments are.
\<close>

theorem generate_eq_calculate:
  "generateReconciliationSummary acct matchedList unmatchedBankList unmatchedBookList =
   calculateReconciliationSummary acct' matchedList unmatchedBankList unmatchedBookList"
  by (simp add: generateReconciliationSummary_def calculateReconciliationSummary_def)

text \<open>
  Claim C10 (order). \<open>unmatchedBank\<close> is a subsequence of the input bank list and
  \<open>unmatchedBook\<close> a subsequence of the input book list: the survivors keep their
  relative order.
\<close>

theorem unmatched_subseq:
  "subseq (unmatchedBank (matchTransactions bankTxs bookTxs s)) bankTxs \<and>
   subseq (unmatchedBook (matchTransactions bankTxs bookTxs s)) bookTxs"
  using matchTransactions_inv[of bankTxs bookTxs s] by (simp add: partitionInv_def)

text \<open>Three bank transactions of which the middle one is matched: the other two stay in order.\<close>

theorem unmatched_subseq_witness:
  "unmatchedBank (matchTransactions
      [sampleTx ''b1'' 0 ''Fuel'' 40 None, sampleTx ''b2'' 0 ''Rent'' 100 None, sampleTx ''b3'' 0 ''Taxi'' 25 None]
      [sampleTx ''k1'' 0 ''Rent'' 100 None] defaultSettings)
    = [sampleTx ''b1'' 0 ''Fuel'' 40 None, sampleTx ''b3'' 0 ''Taxi'' 25 None] \<and>
   subseq [sampleTx ''b1'' 0 ''Fuel'' 40 None, sampleTx ''b3'' 0 ''Taxi'' 25 None]
      [sampleTx ''b1'' 0 ''Fuel'' 40 None, sampleTx ''b2'' 0 ''Rent'' 100 None, sampleTx ''b3'' 0 ''Taxi'' 25 None]"
proof -
  have e: "unmatchedBank (matchTransactions
      [sampleTx ''b1'' 0 ''Fuel'' 40 None, sampleTx ''b2'' 0 ''Rent'' 100 None, sampleTx ''b3'' 0 ''Taxi'' 25 None]
      [sampleTx ''k1'' 0 ''Rent'' 100 None] defaultSettings)
    = [sampleTx ''b1'' 0 ''Fuel'' 40 None, sampleTx ''b3'' 0 ''Taxi'' 25 None]"
    by code_simp
  from unmatched_subseq[of
      "[sampleTx ''b1'' 0 ''Fuel'' 40 None, sampleTx ''b2'' 0 ''Rent'' 100 None, sampleTx ''b3'' 0 ''Taxi'' 25 None]"
      "[sampleTx ''k1'' 0 ''Rent'' 100 None]" defaultSettings] e
  show ?thesis by simp
qed

end
